theory Spec2Isabelle
  imports Complex_Main "HOL-Library.AList" "HOL-Library.Multiset" "HOL-Library.Sublist"
begin

section \<open>Strings\<close>

text \<open>
  A JavaScript string is modelled as a \<^typ>\<open>string\<close>: a list of characters, each standing
  for one UTF-16 code unit in the range 0..255. Code units above 255 are outside the model.
  \<open>length\<close> is therefore the \<open>.length\<close> of the source, \<open>take n\<close> is \<open>.slice(0, n)\<close>.
\<close>

text \<open>
  The class \<open>\s\<close> of a regular expression, which is also the set of characters that
  \<open>String.prototype.trim\<close> strips: TAB, LF, VT, FF, CR, SPACE and NO-BREAK SPACE are its
  members below 256.
\<close>

definition is_space :: "char \<Rightarrow> bool" where
  "is_space c =
     (c = CHR 0x09 \<or> c = CHR 0x0A \<or> c = CHR 0x0B \<or> c = CHR 0x0C \<or> c = CHR 0x0D \<or>
      c = CHR 0x20 \<or> c = CHR 0xA0)"

definition non_space :: "char \<Rightarrow> bool" where
  "non_space c = (\<not> is_space c)"

text \<open>\<open>String.prototype.toLowerCase\<close> on one code unit below 256: A..Z and the
  Latin-1 capitals U+00C0..U+00DE (the multiplication sign U+00D7 excepted) move up by 32.\<close>

definition toLowerCase_char :: "char \<Rightarrow> char" where
  "toLowerCase_char c =
     (let n = (of_char c :: nat) in
      if (65 \<le> n \<and> n \<le> 90) \<or> (192 \<le> n \<and> n \<le> 222 \<and> n \<noteq> 215)
      then char_of (n + 32) else c)"

definition toLowerCase :: "string \<Rightarrow> string" where
  "toLowerCase s = map toLowerCase_char s"

text \<open>\<open>s.replace(/\s+/g, ' ')\<close>: every maximal run of whitespace becomes one space.\<close>

function collapse_ws :: "string \<Rightarrow> string" where
  "collapse_ws [] = []"
| "collapse_ws (c # cs) =
     (if is_space c then CHR '' '' # collapse_ws (dropWhile is_space cs)
      else c # collapse_ws cs)"
  by pat_completeness auto
termination
  by (relation "measure length") (auto simp: less_Suc_eq_le length_dropWhile_le)

text \<open>\<open>s.trim()\<close> strips the whitespace at both ends; \<open>trimEnd\<close> is its right half.\<close>

definition trimEnd :: "string \<Rightarrow> string" where
  "trimEnd s = rev (dropWhile is_space (rev s))"

definition trim :: "string \<Rightarrow> string" where
  "trim s = trimEnd (dropWhile is_space s)"

text \<open>\<open>s.split(' ')\<close> with a one-character separator: the empty string splits into
  one empty piece, and two adjacent separators enclose an empty piece.\<close>

fun split_on :: "char \<Rightarrow> string \<Rightarrow> string list" where
  "split_on sep [] = [[]]"
| "split_on sep (c # cs) =
     (if c = sep then [] # split_on sep cs
      else (case split_on sep cs of
              [] \<Rightarrow> [[c]]
            | w # ws \<Rightarrow> (c # w) # ws))"

text \<open>\<open>parts.join(' ')\<close>.\<close>

fun join_with :: "char \<Rightarrow> string list \<Rightarrow> string" where
  "join_with sep [] = []"
| "join_with sep [w] = w"
| "join_with sep (w # v # ws) = w @ sep # join_with sep (v # ws)"

text \<open>The whitespace-separated tokens of a string: its maximal runs of characters that
  are not whitespace. This is the vocabulary of the specification, not of the source.\<close>

function ws_tokens :: "string \<Rightarrow> string list" where
  "ws_tokens s =
     (case dropWhile is_space s of
        [] \<Rightarrow> []
      | c # cs \<Rightarrow> takeWhile non_space (c # cs) # ws_tokens (dropWhile non_space cs))"
  by pat_completeness auto
termination
proof (relation "measure length", goal_cases)
  case 1
  show ?case by simp
next
  case (2 s c cs)
  have "length (dropWhile non_space cs) \<le> length cs"
    by (rule length_dropWhile_le)
  moreover have "length (c # cs) \<le> length s"
    unfolding 2 [symmetric] by (rule length_dropWhile_le)
  ultimately show ?case by simp
qed

declare ws_tokens.simps [simp del]

subsection \<open>Input sanitisation of \<open>sendMessage\<close>\<close>

text \<open>
  \<^verbatim>\<open>const raw = (content ?? '').toString();
const cleaned = raw.replace(/\s+/g, ' ').trim();
const safeContent = cleaned.slice(0, 4000);\<close>
\<close>

definition sanitize :: "string \<Rightarrow> string" where
  "sanitize content =
     (let raw = content;
          cleaned = trim (collapse_ws raw);
          safeContent = take 4000 cleaned
      in safeContent)"

subsection \<open>Query reformulation\<close>

text \<open>The class \<open>\w\<close>, which decides where \<open>\b\<close> holds: \<open>[A-Za-z0-9_]\<close>.\<close>

definition is_word_char :: "char \<Rightarrow> bool" where
  "is_word_char c =
     (let n = (of_char c :: nat) in
      (65 \<le> n \<and> n \<le> 90) \<or> (97 \<le> n \<and> n \<le> 122) \<or> (48 \<le> n \<and> n \<le> 57) \<or> n = 95)"

text \<open>\<open>\b\<close> between two neighbouring positions: exactly one side is a word character;
  the outside of the string counts as a non-word character.\<close>

definition word_boundary :: "char option \<Rightarrow> char option \<Rightarrow> bool" where
  "word_boundary prev nxt =
     ((case prev of None \<Rightarrow> False | Some c \<Rightarrow> is_word_char c) \<noteq>
      (case nxt of None \<Rightarrow> False | Some c \<Rightarrow> is_word_char c))"

definition fillers :: "string list" where
  "fillers = [''please'', ''kindly'', ''can you'', ''could you'', ''would you'', ''thanks'',
              ''thank you'']"

definition first_char :: "string \<Rightarrow> char option" where
  "first_char s = (case s of [] \<Rightarrow> None | c # _ \<Rightarrow> Some c)"

text \<open>
  One attempt of \<open>/\b(please|kindly|can you|could you|would you|thanks|thank you)\b/\<close> at
  the current position: \<open>prev\<close> is the character left of the position, \<open>s\<close> the rest
  of the string. The alternatives are tried in their order; the first that is a prefix of
  \<open>s\<close> with a word boundary on both sides is the match.
\<close>

definition match_filler :: "char option \<Rightarrow> string \<Rightarrow> string option" where
  "match_filler prev s =
     find (\<lambda>w. take (length w) s = w \<and>
              word_boundary prev (first_char s) \<and>
              word_boundary (Some (last w)) (first_char (drop (length w) s)))
          fillers"

text \<open>
  \<open>.replace(/\b(...)\b/g, '')\<close>: scan from the left; a match is deleted and the scan
  goes on behind it, a position without a match keeps its character. No alternative is
  empty, so dropping \<open>length w - 1\<close> characters behind the first one drops the match.
\<close>

function strip_fillers :: "char option \<Rightarrow> string \<Rightarrow> string" where
  "strip_fillers prev [] = []"
| "strip_fillers prev (c # cs) =
     (case match_filler prev (c # cs) of
        Some w \<Rightarrow> strip_fillers (Some (last w)) (drop (length w - 1) cs)
      | None \<Rightarrow> c # strip_fillers (Some c) cs)"
  by pat_completeness auto
termination
  by (relation "measure (\<lambda>(b, s). length s)") (auto simp: less_Suc_eq_le)

text \<open>\<open>.replace(/[^a-z0-9\s-]/g, ' ')\<close>, one character at a time.\<close>

definition keep_query_char :: "char \<Rightarrow> char" where
  "keep_query_char c =
     (let n = (of_char c :: nat) in
      if (97 \<le> n \<and> n \<le> 122) \<or> (48 \<le> n \<and> n \<le> 57) \<or> is_space c \<or> c = CHR ''-''
      then c else CHR '' '')"

text \<open>
  \<^verbatim>\<open>const cleaned = (text || '').toLowerCase()
  .replace(/\b(please|kindly|can you|could you|would you|thanks|thank you)\b/g, '')
  .replace(/[^a-z0-9\s-]/g, ' ')
  .replace(/\s+/g, ' ')
  .trim();
return cleaned.split(' ').slice(0, 10).join(' ');\<close>
\<close>

definition query_cleaned :: "string \<Rightarrow> string" where
  "query_cleaned txt = map keep_query_char (strip_fillers None (toLowerCase txt))"

definition rewriteQueryForRetrieval :: "string \<Rightarrow> string" where
  "rewriteQueryForRetrieval txt =
     (let cleaned = trim (collapse_ws (query_cleaned txt))
      in join_with CHR '' '' (take 10 (split_on CHR '' '' cleaned)))"


text \<open>
  The vocabulary of the specification for the filler phrases. The pieces of a text are its
  words, the maximal runs of word characters, and its other characters one by one.
  Removing the fillers deletes a piece that is the word \<open>please\<close>, \<open>kindly\<close> or
  \<open>thanks\<close>, and a piece that is the word \<open>can\<close>, \<open>could\<close>, \<open>would\<close> or \<open>thank\<close>
  together with the two pieces behind it when these are one space and the word \<open>you\<close>.
  This is the vocabulary of the specification, not of the source.
\<close>

function pieces :: "string \<Rightarrow> string list" where
  "pieces [] = []"
| "pieces (c # cs) =
     (if is_word_char c
      then (c # takeWhile is_word_char cs) # pieces (dropWhile is_word_char cs)
      else [c] # pieces cs)"
  by pat_completeness auto
termination
  by (relation "measure length") (auto simp: less_Suc_eq_le length_dropWhile_le)

function remove_fillers :: "string list \<Rightarrow> string list" where
  "remove_fillers [] = []"
| "remove_fillers (p # ps) =
     (if p \<in> set [''please'', ''kindly'', ''thanks''] then remove_fillers ps
      else if p \<in> set [''can'', ''could'', ''would'', ''thank''] \<and> take 2 ps = ['' '', ''you'']
      then remove_fillers (drop 2 ps)
      else p # remove_fillers ps)"
  by pat_completeness auto
termination
  by (relation "measure length") auto

text \<open>The character left of a position is a word character.\<close>

definition prev_word :: "char option \<Rightarrow> bool" where
  "prev_word p = (case p of None \<Rightarrow> False | Some c \<Rightarrow> is_word_char c)"


section \<open>Numbers and loosely typed values\<close>

text \<open>
  A JavaScript number is a finite value, \<open>NaN\<close> or one of the two infinities. A finite
  value is modelled by the rational number it denotes; no claim depends on rounding.
\<close>

datatype jsnum = Num rat | NaN | PosInfinity | NegInfinity

definition isFinite :: "jsnum \<Rightarrow> bool" where
  "isFinite n = (case n of Num _ \<Rightarrow> True | _ \<Rightarrow> False)"

definition isNaN :: "jsnum \<Rightarrow> bool" where
  "isNaN n = (n = NaN)"

text \<open>The values a field of a parsed JSON response can hold where the declared type is
  \<open>number | string | boolean | undefined\<close>.\<close>

datatype jsvalue = JUndefined | JNull | JBool bool | JNumber jsnum | JString string

text \<open>
  \<open>Number(v)\<close>. The conversion of a string (\<open>StringToNumber\<close> of ECMAScript) is a
  built-in of the language and is taken as the parameter \<open>str2num\<close>.
\<close>

fun js_Number :: "(string \<Rightarrow> jsnum) \<Rightarrow> jsvalue \<Rightarrow> jsnum" where
  "js_Number str2num JUndefined = NaN"
| "js_Number str2num JNull = Num 0"
| "js_Number str2num (JBool b) = (if b then Num 1 else Num 0)"
| "js_Number str2num (JNumber n) = n"
| "js_Number str2num (JString s) = str2num s"

text \<open>
  \<^verbatim>\<open>private toNumberOrUndefined(v: any): number | undefined {
  const n = Number(v);
  return isFinite(n) && !isNaN(n) ? n : undefined;
}\<close>
  \<open>LlmClientService.numOrUndef\<close> has the same body.
\<close>

definition toNumberOrUndefined :: "(string \<Rightarrow> jsnum) \<Rightarrow> jsvalue \<Rightarrow> jsnum option" where
  "toNumberOrUndefined str2num v =
     (let n = js_Number str2num v
      in if isFinite n \<and> \<not> isNaN n then Some n else None)"


text \<open>
  An object used as a dictionary is the list of its own properties, in the order of
  \<open>Object.keys\<close>. The assignment \<open>out[k] = n\<close> of a number adds or replaces the own
  property \<open>k\<close>, except for \<open>k = "__proto__"\<close>: that assignment reaches the setter
  inherited from \<open>Object.prototype\<close>, which ignores a value that is not an object.
\<close>

definition assign_number :: "string \<Rightarrow> jsnum \<Rightarrow> (string \<times> jsnum) list \<Rightarrow> (string \<times> jsnum) list" where
  "assign_number k n out = (if k = ''__proto__'' then out else AList.update k n out)"

text \<open>
  \<^verbatim>\<open>if (!obj) return undefined;
const out: Record<string, number> = {};
for (const k of Object.keys(obj)) {
  const val = (obj as any)[k];
  const n = Number(val);
  if (isFinite(n) && !isNaN(n)) { out[k] = n; }
}
return Object.keys(out).length ? out : undefined;\<close>
\<close>

fun toNumberRecord_loop ::
  "(string \<Rightarrow> jsnum) \<Rightarrow> (string \<times> jsvalue) list \<Rightarrow> (string \<times> jsnum) list \<Rightarrow> (string \<times> jsnum) list"
where
  "toNumberRecord_loop str2num [] out = out"
| "toNumberRecord_loop str2num ((k, val) # rest) out =
     (let n = js_Number str2num val
      in if isFinite n \<and> \<not> isNaN n
         then toNumberRecord_loop str2num rest (assign_number k n out)
         else toNumberRecord_loop str2num rest out)"

definition toNumberRecord ::
  "(string \<Rightarrow> jsnum) \<Rightarrow> (string \<times> jsvalue) list option \<Rightarrow> (string \<times> jsnum) list option"
where
  "toNumberRecord str2num obj =
     (case obj of
        None \<Rightarrow> None
      | Some props \<Rightarrow>
          (let out = toNumberRecord_loop str2num props []
           in if length out \<noteq> 0 then Some out else None))"

section \<open>Data model\<close>

text \<open>
  The interfaces of \<open>chat.models.ts\<close> and \<open>context.models.ts\<close>. Left out: the
  time stamps (\<open>timestamp\<close>, \<open>at\<close>, \<open>usedAt\<close>, \<open>createdAt\<close>, \<open>updatedAt\<close>), which are
  readings of the wall clock, and the \<open>icon\<close> of an agent or actor, an emoji outside the
  modelled character range. The step type and the context item type are strings, as at run
  time: a step sent by the backend carries whatever string the backend chose.
\<close>

datatype role = User | Agent | System

datatype agent_status = Idle | Thinking | Retrieving | Responding | StatusError | Offline

record agent_state =
  status :: agent_status
  status_note :: "string option"

record agent_summary =
  agent_id :: string
  agent_name :: string
  agent_description :: string
  agent_expertise :: "string list"
  state :: agent_state

record rag_chunk =
  chunk_id :: string
  chunk_source :: string
  chunk_title :: "string option"
  chunk_snippet :: string
  chunk_score :: "rat option"
  chunk_url :: "string option"

record rag_context =
  rag_query :: string
  rag_chunks :: "rag_chunk list"

record token_counts =
  tokens_prompt :: "jsnum option"
  tokens_completion :: "jsnum option"
  tokens_total :: "jsnum option"

record llm_call_info =
  llm_model :: string
  llm_params :: "(string \<times> jsnum) list option"
  llm_tokens :: "token_counts option"
  llm_latencyMs :: "jsnum option"

record message =
  msg_id :: string
  msg_role :: role
  msg_content :: string
  msg_agentId :: "string option"
  msg_context :: "rag_context option"
  msg_llm :: "llm_call_info option"
  msg_protocolTurnId :: "string option"

record conversation =
  conv_id :: string
  conv_title :: string
  conv_agentId :: string
  conv_messages :: "message list"

record protocol_actor =
  actor_id :: string
  actor_name :: string

record protocol_io =
  io_text :: "string option"
  io_fields :: "(string \<times> jsvalue) list option"

record retrieval_batch =
  batch_query :: string
  batch_items :: "rag_chunk list"

record context_window_item =
  item_id :: string
  item_type :: string
  item_text :: string
  item_tokens :: "nat option"
  item_origin :: "string option"

text \<open>The model information as the backend sends it (\<open>LlmModelInfo\<close> of
  \<open>llm-client.service.ts\<close>): its numeric fields are not checked.\<close>

record llm_token_usage =
  usage_prompt :: jsvalue
  usage_completion :: jsvalue
  usage_total :: jsvalue

record llm_model_info =
  info_model :: string
  info_params :: "(string \<times> jsvalue) list option"
  info_tokens :: "llm_token_usage option"
  info_latencyMs :: jsvalue

text \<open>The \<open>model\<close> field of a step holds the front end's own record on the local path and
  the backend's unchecked record on a step the backend supplied.\<close>

datatype model_payload = FrontEnd llm_call_info | BackEnd llm_model_info

record protocol_step =
  step_id :: string
  step_type :: string
  step_actor :: protocol_actor
  step_input :: "protocol_io option"
  step_output :: "protocol_io option"
  step_retrieval :: "retrieval_batch option"
  step_contextWindow :: "context_window_item list option"
  step_model :: "model_payload option"
  step_note :: "string option"

record model_context_protocol =
  mcp_turnId :: string
  mcp_steps :: "protocol_step list"

subsection \<open>The backend's request and response\<close>

record llm_request =
  req_messages :: "(string \<times> string) list"
  req_agentId :: string
  req_params :: "(string \<times> jsnum) list"
  req_rag_enable :: bool
  req_rag_k :: nat

text \<open>One entry of \<open>protocol\<close> in the response; \<open>id\<close>, \<open>type\<close> and \<open>actor\<close> may be
  missing (or empty), which \<open>applyBackendProtocol\<close> repairs.\<close>

record llm_step =
  bs_id :: "string option"
  bs_type :: "string option"
  bs_actor :: "protocol_actor option"
  bs_input :: "protocol_io option"
  bs_output :: "protocol_io option"
  bs_retrieval :: "retrieval_batch option"
  bs_contextWindow :: "context_window_item list option"
  bs_model :: "llm_model_info option"
  bs_note :: "string option"

text \<open>
  The \<open>protocol\<close> of a response as it was parsed, which nothing checks against the declared
  type \<open>LlmProtocolStep[]\<close>: an array whose entries are objects or \<open>null\<close>, or a value
  that \<open>for (const s of steps)\<close> cannot iterate (a number other than 0, \<open>true\<close>, an
  object). An entry that is a number, a string or a boolean reads like an object with none
  of the properties, so it is the entry with every field missing; a non-empty string in
  the place of the array is iterated character by character and is an array of such
  entries; 0, \<open>false\<close> and the empty string are replaced by \<open>[]\<close> in
  \<open>res.protocol || []\<close> and are the empty array.
\<close>

datatype protocol_payload = Entries "llm_step option list" | NotIterable

text \<open>The parsed body of the HTTP response, each field possibly missing.\<close>

record http_body =
  body_content :: "string option"
  body_context :: "rag_context option"
  body_llm :: "llm_model_info option"
  body_protocol :: "protocol_payload option"

record llm_response =
  res_content :: string
  res_context :: "rag_context option"
  res_llm :: "llm_model_info option"
  res_protocol :: protocol_payload

text \<open>A thrown value: its \<open>message\<close> property, if any, and \<open>String(err)\<close>.\<close>

record js_error =
  err_message :: "string option"
  err_string :: string

text \<open>The exception of the language itself that the modelled code can raise.\<close>

datatype exn = TypeError

text \<open>The places where the handling of a response can raise it: the read \<open>s.id\<close> of an
  entry that is \<open>null\<close>, the iteration of a \<open>protocol\<close> that is not iterable, and the
  spread of \<open>curr[turnId].steps\<close> in \<open>appendStep\<close>. The text of the message is the
  engine's.\<close>

datatype type_error_site = ReadOfNull | IterationOfNonIterable | SpreadOfUndefined

section \<open>The environment\<close>

text \<open>
  What the code reads from outside: the configured URL, the outcome of the one HTTP
  exchange (a failure covers the timeout, a network error and a non-success status; the
  body may be \<open>null\<close>), the string-to-number conversion of the language, the random
  hexadecimal digits of the identifiers (\<open>random_nibble e n k\<close> is the \<open>k\<close>-th draw
  \<open>Math.random() * 16 | 0\<close> of the \<open>n\<close>-th call of \<open>uuid()\<close>), the arithmetic of
  double-precision numbers in \<open>+(c.score - i * 0.025).toFixed(2)\<close>, and the milliseconds
  \<open>Date.now() - start\<close>, and the message the engine gives a \<open>TypeError\<close> it raises.
  Timers are taken to exist and fire: a run of \<open>sendMessage\<close>
  below is the subscription to the returned observable, followed to the point where no
  timer is pending.
\<close>

record env =
  LLM_API_URL :: string
  http_post :: "llm_request \<Rightarrow> js_error + http_body option"
  StringToNumber :: "string \<Rightarrow> jsnum"
  random_nibble :: "nat \<Rightarrow> nat \<Rightarrow> nat"
  penalised_score :: "rat \<Rightarrow> nat \<Rightarrow> rat"
  elapsed_ms :: nat
  TypeError_message :: "type_error_site \<Rightarrow> string"

text \<open>The \<open>TypeError\<close> object raised at a site, as \<open>catchError\<close> reads it:
  \<open>err.message\<close> and \<open>String(err)\<close>, which is the name, and the message behind a colon if
  it is not empty.\<close>

definition type_error :: "env \<Rightarrow> type_error_site \<Rightarrow> js_error" where
  "type_error e site =
     \<lparr>err_message = Some (TypeError_message e site),
      err_string = (if TypeError_message e site = [] then ''TypeError''
                    else ''TypeError: '' @ TypeError_message e site)\<rparr>"

subsection \<open>Identifiers\<close>

text \<open>
  \<^verbatim>\<open>return 'xxxxxxxx-xxxx-4xxx-yxxx-xxxxxxxxxxxx'.replace(/[xy]/g, c => {
  const r = Math.random() * 16 | 0, v = c === 'x' ? r : (r & 0x3 | 0x8);
  return v.toString(16);
});\<close>
  \<open>crypto.randomUUID()\<close>, which the source prefers where it exists, returns a string of
  the same layout. \<open>r & 0x3 | 0x8\<close> on a draw below 16 is \<open>r mod 4 + 8\<close>.
\<close>

definition uuid_template :: string where
  "uuid_template = ''xxxxxxxx-xxxx-4xxx-yxxx-xxxxxxxxxxxx''"

definition hex_digit :: "nat \<Rightarrow> char" where
  "hex_digit v = ''0123456789abcdef'' ! (v mod 16)"

fun fill_template :: "(nat \<Rightarrow> nat) \<Rightarrow> nat \<Rightarrow> string \<Rightarrow> string" where
  "fill_template r k [] = []"
| "fill_template r k (c # cs) =
     (if c = CHR ''x'' then hex_digit (r k mod 16) # fill_template r (Suc k) cs
      else if c = CHR ''y'' then hex_digit (r k mod 16 mod 4 + 8) # fill_template r (Suc k) cs
      else c # fill_template r k cs)"

text \<open>The result of the \<open>n\<close>-th call of \<open>uuid()\<close>.\<close>

definition uuid_stream :: "env \<Rightarrow> nat \<Rightarrow> string" where
  "uuid_stream e n = fill_template (random_nibble e n) 0 uuid_template"

section \<open>The protocol timeline store (\<open>ModelContextService\<close>)\<close>

text \<open>
  \<open>protocols$\<close> holds a plain object created by \<open>{}\<close>: a map from the names of its own
  properties to timelines. Reading \<open>curr[turnId]\<close> also finds the properties every plain
  object inherits from \<open>Object.prototype\<close>; all of them are truthy, and none has a
  property \<open>steps\<close>.
\<close>

type_synonym protocols = "string \<rightharpoonup> model_context_protocol"

definition object_prototype_names :: "string list" where
  "object_prototype_names =
     [''constructor'', ''__proto__'', ''hasOwnProperty'', ''isPrototypeOf'',
      ''propertyIsEnumerable'', ''toLocaleString'', ''toString'', ''valueOf'',
      ''__defineGetter__'', ''__defineSetter__'', ''__lookupGetter__'', ''__lookupSetter__'']"

definition inherited_property :: "string \<Rightarrow> bool" where
  "inherited_property k = (k \<in> set object_prototype_names)"

text \<open>\<open>!curr[turnId]\<close>.\<close>

definition absent :: "protocols \<Rightarrow> string \<Rightarrow> bool" where
  "absent cur turnId = (cur turnId = None \<and> \<not> inherited_property turnId)"

text \<open>
  \<^verbatim>\<open>addProtocol(turnId: string): void {
  const curr = this.protocols$.value;
  if (!curr[turnId]) {
    curr[turnId] = { turnId, steps: [] };
    this.protocols$.next({ ...curr });
  }
}\<close>
\<close>

definition addProtocol :: "string \<Rightarrow> protocols \<Rightarrow> protocols" where
  "addProtocol turnId cur =
     (if absent cur turnId
      then cur(turnId \<mapsto> \<lparr>mcp_turnId = turnId, mcp_steps = []\<rparr>)
      else cur)"

text \<open>
  \<^verbatim>\<open>appendStep(turnId: string, step: ProtocolStep): void {
  const curr = this.protocols$.value;
  if (!curr[turnId]) this.addProtocol(turnId);
  curr[turnId].steps = [...curr[turnId].steps, step];
  this.protocols$.next({ ...curr });
}\<close>
  Where \<open>curr[turnId]\<close> is an inherited property, \<open>curr[turnId].steps\<close> is \<open>undefined\<close>
  and spreading it raises a \<open>TypeError\<close>.
\<close>

definition appendStep :: "string \<Rightarrow> protocol_step \<Rightarrow> protocols \<Rightarrow> exn + protocols" where
  "appendStep turnId step cur0 =
     (let cur = (if absent cur0 turnId then addProtocol turnId cur0 else cur0)
      in case cur turnId of
           None \<Rightarrow> Inl TypeError
         | Some p \<Rightarrow> Inr (cur(turnId \<mapsto> p\<lparr>mcp_steps := mcp_steps p @ [step]\<rparr>)))"

text \<open>\<open>this.mcp.get(turnId)?.steps ?? []\<close>, as the pages read a timeline.\<close>

definition protocol_steps :: "protocols \<Rightarrow> string \<Rightarrow> protocol_step list" where
  "protocol_steps cur turnId = (case cur turnId of None \<Rightarrow> [] | Some p \<Rightarrow> mcp_steps p)"


section \<open>The turn pipeline (\<open>ChatService\<close>)\<close>

text \<open>The state of the two services: conversations, the selected conversation and agent,
  the agent roster, the timeline store, and the number of \<open>uuid()\<close> calls made so far.\<close>

record world =
  conversations :: "conversation list"
  activeConversationId :: string
  activeAgentId :: string
  agents :: "agent_summary list"
  protocols :: protocols
  uuid_calls :: nat

definition uuid :: "env \<Rightarrow> world \<Rightarrow> string \<times> world" where
  "uuid e w = (uuid_stream e (uuid_calls w), w\<lparr>uuid_calls := Suc (uuid_calls w)\<rparr>)"

text \<open>Sequencing of steps that may raise: the first exception ends the run.\<close>

definition and_then :: "exn + 'a \<Rightarrow> ('a \<Rightarrow> exn + 'b) \<Rightarrow> exn + 'b" where
  "and_then r f = (case r of Inl x \<Rightarrow> Inl x | Inr v \<Rightarrow> f v)"

text \<open>\<open>this.mcp.addProtocol\<close> and \<open>this.mcp.appendStep\<close> on the state.\<close>

definition mcp_addProtocol :: "string \<Rightarrow> world \<Rightarrow> world" where
  "mcp_addProtocol turnId w = w\<lparr>protocols := addProtocol turnId (protocols w)\<rparr>"

definition mcp_appendStep :: "string \<Rightarrow> protocol_step \<Rightarrow> world \<Rightarrow> exn + world" where
  "mcp_appendStep turnId step w =
     (case appendStep turnId step (protocols w) of
        Inl x \<Rightarrow> Inl x
      | Inr cur \<Rightarrow> Inr (w\<lparr>protocols := cur\<rparr>))"

text \<open>
  \<^verbatim>\<open>const list = this.conversations$.value.map(c => {
  if (c.id !== convId) return c;
  return { ...c, messages: [...c.messages, message], updatedAt: ... };
});\<close>
\<close>

definition pushMessage :: "string \<Rightarrow> message \<Rightarrow> world \<Rightarrow> world" where
  "pushMessage convId m w =
     w\<lparr>conversations :=
         map (\<lambda>c. if conv_id c \<noteq> convId then c
                  else c\<lparr>conv_messages := conv_messages c @ [m]\<rparr>)
             (conversations w)\<rparr>"

text \<open>\<open>this.agents = this.agents.map(a => a.id === agentId ? ({ ...a, state: { status, note } }) : a)\<close>\<close>

definition setAgentState :: "string \<Rightarrow> agent_status \<Rightarrow> string option \<Rightarrow> world \<Rightarrow> world" where
  "setAgentState agentId st note_text w =
     w\<lparr>agents :=
         map (\<lambda>a. if agent_id a = agentId
                  then a\<lparr>state := \<lparr>status = st, status_note = note_text\<rparr>\<rparr> else a)
             (agents w)\<rparr>"

text \<open>
  The characters of the source's literals that lie outside the modelled range, the
  horizontal ellipsis and the bullet, are written as single characters of the range
  0x80..0x9F, which no modelled operation treats as whitespace, as a word character or as
  a letter with a case. They keep the lengths of the strings they occur in.
\<close>

definition ellipsis :: char where
  "ellipsis = CHR 0x85"

definition bullet :: char where
  "bullet = CHR 0x95"

definition planner :: protocol_actor where
  "planner = \<lparr>actor_id = ''planner'', actor_name = ''Planner''\<rparr>"

definition researcher :: protocol_actor where
  "researcher = \<lparr>actor_id = ''researcher'', actor_name = ''Researcher''\<rparr>"

definition writer :: protocol_actor where
  "writer = \<lparr>actor_id = ''writer'', actor_name = ''Writer''\<rparr>"

definition backend_actor :: protocol_actor where
  "backend_actor = \<lparr>actor_id = ''backend'', actor_name = ''Backend''\<rparr>"

definition system_prompt :: string where
  "system_prompt = ''You are a helpful, precise assistant. Cite evidence concisely.''"

definition model_params :: "(string \<times> jsnum) list" where
  "model_params = [(''temperature'', Num 0.3), (''max_tokens'', Num 512), (''top_p'', Num 1.0)]"

subsection \<open>Retrieval\<close>

text \<open>
  \<^verbatim>\<open>const q = (query || '').trim();
const base: RagChunk[] = [ { id: this.uuid(), source: 'docs/guide.md', ... score: 0.92 }, ... ];
const echoed = base.map((c, i) => ({
  ...c,
  snippet: `${c.snippet} [q:${q.slice(0, 48)}${q.length > 48 ? '...' : ''}]`,
  score: c.score ? +(c.score - i * 0.025).toFixed(2) : undefined
}));\<close>
\<close>

definition base_corpus :: "(string \<times> string \<times> string \<times> rat) list" where
  "base_corpus =
     [(''docs/guide.md'', ''RAG Overview'',
       ''RAG combines retrieval with generation to ground responses.'', 0.92),
      (''blog/agents'', ''Agent Collaboration'',
       ''Planner, Researcher, and Writer coordinate to answer complex queries.'', 0.88),
      (''kb/context'', ''Context Windows'',
       ''Efficient context packing improves factual grounding.'', 0.81),
      (''kb/evaluation'', ''Answer Quality'',
       ''Grounded responses cite evidence and include caveats when needed.'', 0.77)]"

fun base_chunks :: "env \<Rightarrow> (string \<times> string \<times> string \<times> rat) list \<Rightarrow> world \<Rightarrow> rag_chunk list \<times> world" where
  "base_chunks e [] w = ([], w)"
| "base_chunks e ((src, title, snippet, score) # rest) w =
     (let (i, w1) = uuid e w;
          c = \<lparr>chunk_id = i, chunk_source = src, chunk_title = Some title,
               chunk_snippet = snippet, chunk_score = Some score, chunk_url = Some ''#''\<rparr>;
          (cs, w2) = base_chunks e rest w1
      in (c # cs, w2))"

definition echo_chunk :: "env \<Rightarrow> string \<Rightarrow> rag_chunk \<times> nat \<Rightarrow> rag_chunk" where
  "echo_chunk e q ci =
     (let c = fst ci; i = snd ci
      in c\<lparr>chunk_snippet :=
             chunk_snippet c @ '' [q:'' @ take 48 q @ (if length q > 48 then [ellipsis] else [])
               @ '']'',
           chunk_score :=
             (case chunk_score c of
                None \<Rightarrow> None
              | Some sc \<Rightarrow> if sc \<noteq> 0 then Some (penalised_score e sc i) else None)\<rparr>)"

definition mockRag :: "env \<Rightarrow> string \<Rightarrow> world \<Rightarrow> rag_chunk list \<times> world" where
  "mockRag e query w =
     (let q = trim query;
          (base, w1) = base_chunks e base_corpus w;
          echoed = map (echo_chunk e q) (zip base [0 ..< length base])
      in (echoed, w1))"

text \<open>\<open>(c.title || c.source || '').toLowerCase()\<close>\<close>

definition chunk_key :: "rag_chunk \<Rightarrow> string" where
  "chunk_key c =
     toLowerCase (case chunk_title c of
                    None \<Rightarrow> chunk_source c
                  | Some t \<Rightarrow> if t \<noteq> [] then t else chunk_source c)"

text \<open>
  \<^verbatim>\<open>const seen = new Set<string>();
const chunks = chunksRaw
  .filter(c => {
    const key = (c.title || c.source || '').toLowerCase();
    if (seen.has(key)) return false;
    seen.add(key);
    return true;
  })
  .sort((a, b) => (b.score ?? 0) - (a.score ?? 0))
  .slice(0, 5);\<close>
  \<open>Array.prototype.sort\<close> is stable, and on finite scores the comparator orders two
  chunks by the order of their scores, the larger first: the sorted array is the stable
  sort by the negated score.
\<close>

fun dedup_filter :: "string set \<Rightarrow> rag_chunk list \<Rightarrow> rag_chunk list" where
  "dedup_filter seen [] = []"
| "dedup_filter seen (c # cs) =
     (let key = chunk_key c
      in if key \<in> seen then dedup_filter seen cs
         else c # dedup_filter (insert key seen) cs)"

definition score_or_zero :: "rag_chunk \<Rightarrow> rat" where
  "score_or_zero c = (case chunk_score c of None \<Rightarrow> 0 | Some sc \<Rightarrow> sc)"

definition dedup_rank :: "rag_chunk list \<Rightarrow> rag_chunk list" where
  "dedup_rank chunksRaw =
     take 5 (sort_key (\<lambda>c. - score_or_zero c) (dedup_filter {} chunksRaw))"

text \<open>The retrieval step of the local pipeline on a query: \<open>mockRag\<close>, then
  deduplication, ranking and truncation.\<close>

definition retrieve :: "env \<Rightarrow> string \<Rightarrow> world \<Rightarrow> rag_chunk list" where
  "retrieve e query w = dedup_rank (fst (mockRag e query w))"

subsection \<open>Context packing\<close>

text \<open>
  \<^verbatim>\<open>const contextItems: ContextWindowItem[] = [
  { id: this.uuid(), type: 'system', text: '...', tokens: 16, origin: 'system' },
  { id: this.uuid(), type: 'history', text: `User: ${safeContent}`,
    tokens: Math.min(24 + Math.floor(safeContent.length / 3), 256), origin: 'user' },
  ...rag.chunks.slice(0, 3).map(ch => ({
    id: ch.id, type: 'retrieval' as const,
    text: `[${ch.title ?? ch.source}] ${ch.snippet}`, origin: ch.source,
    tokens: Math.min(60 + Math.floor((ch.snippet || '').length / 4), 200)
  }))
];\<close>
\<close>

definition retrieval_item :: "rag_chunk \<Rightarrow> context_window_item" where
  "retrieval_item ch =
     \<lparr>item_id = chunk_id ch, item_type = ''retrieval'',
      item_text = ''['' @ (case chunk_title ch of None \<Rightarrow> chunk_source ch | Some t \<Rightarrow> t) @ ''] ''
                  @ chunk_snippet ch,
      item_tokens = Some (min (60 + length (chunk_snippet ch) div 4) 200),
      item_origin = Some (chunk_source ch)\<rparr>"

definition pack_items :: "string \<Rightarrow> string \<Rightarrow> string \<Rightarrow> rag_chunk list \<Rightarrow> context_window_item list" where
  "pack_items id1 id2 safeContent chunks =
     [\<lparr>item_id = id1, item_type = ''system'', item_text = system_prompt,
       item_tokens = Some 16, item_origin = Some ''system''\<rparr>,
      \<lparr>item_id = id2, item_type = ''history'', item_text = ''User: '' @ safeContent,
       item_tokens = Some (min (24 + length safeContent div 3) 256),
       item_origin = Some ''user''\<rparr>]
     @ map retrieval_item (take 3 chunks)"

text \<open>\<open>contextItems.reduce((acc, it) => acc + (it.tokens ?? 50), 0)\<close>\<close>

definition promptTokens :: "context_window_item list \<Rightarrow> nat" where
  "promptTokens contextItems =
     fold (\<lambda>it acc. acc + (case item_tokens it of None \<Rightarrow> 50 | Some t \<Rightarrow> t)) contextItems 0"

definition llmInfo :: "env \<Rightarrow> context_window_item list \<Rightarrow> llm_call_info" where
  "llmInfo e contextItems =
     \<lparr>llm_model = ''mock-gpt-4o-mini'',
      llm_params = Some model_params,
      llm_tokens = Some \<lparr>tokens_prompt = Some (Num (of_nat (promptTokens contextItems))),
                         tokens_completion = Some (Num 160),
                         tokens_total = Some (Num (of_nat (promptTokens contextItems + 160)))\<rparr>,
      llm_latencyMs = Some (Num (of_nat (elapsed_ms e)))\<rparr>"


subsection \<open>Reply synthesis\<close>

text \<open>\<open>String(n)\<close> for a natural number: its decimal digits.\<close>

function show_nat :: "nat \<Rightarrow> string" where
  "show_nat n =
     (if n < 10 then [char_of (48 + n)]
      else show_nat (n div 10) @ [char_of (48 + n mod 10)])"
  by pat_completeness auto
termination
  by (relation "measure id") auto

declare show_nat.simps [simp del]

text \<open>\<open>c.title ?? c.source\<close>\<close>

definition title_or_source :: "rag_chunk \<Rightarrow> string" where
  "title_or_source c = (case chunk_title c of None \<Rightarrow> chunk_source c | Some t \<Rightarrow> t)"

text \<open>\<open>generateReplyTailored(userText, rag, agentId)\<close>: a template filled with the
  trimmed request, the first three chunks as bullet lines, and a preface and a style hint
  chosen by the agent.\<close>

definition generateReplyTailored :: "string \<Rightarrow> rag_context \<Rightarrow> string \<Rightarrow> string" where
  "generateReplyTailored userText rag agentId =
     (let ask = trim userText;
          bullets = join_with CHR 0x0A
                      (map (\<lambda>c. [bullet] @ '' '' @ title_or_source c @ '': '' @ chunk_snippet c)
                           (take 3 (rag_chunks rag)));
          preface = (if agentId = ''planner'' then ''Plan of action''
                     else if agentId = ''researcher'' then ''Evidence-based findings''
                     else ''Synthesis'');
          styleHint = (if agentId = ''planner'' then ''I will outline steps and responsibilities.''
                       else if agentId = ''researcher''
                       then ''I will emphasize sources and confidence.''
                       else ''I will keep the explanation concise and practical.'');
          caveat = ''If additional precision is required, please provide constraints, expected format, or target audience.''
      in preface @ '' for your request: '' @ [CHR 0x22] @ ask @ [CHR 0x22, CHR 0x0A, CHR 0x0A]
         @ ''Key evidence:'' @ [CHR 0x0A]
         @ (if bullets \<noteq> [] then bullets
            else [bullet] @ '' (no retrieved evidence available)'')
         @ [CHR 0x0A, CHR 0x0A] @ styleHint @ [CHR 0x0A] @ ''Answer:'' @ [CHR 0x0A]
         @ ''Based on the retrieved context, here is a grounded response tailored to your query. Where appropriate, I cite evidence from the items above and avoid speculation.''
         @ [CHR 0x0A, CHR 0x0A] @ caveat)"

subsection \<open>The local path (\<open>sendMessageMockPath\<close>)\<close>

text \<open>The five steps the local path records, as the object literals of the source build
  them; a field the literal does not mention is \<open>undefined\<close>.\<close>

definition local_plan_step :: "string \<Rightarrow> string \<Rightarrow> string \<Rightarrow> protocol_step" where
  "local_plan_step i safeContent reformulated =
     \<lparr>step_id = i, step_type = ''plan'', step_actor = planner,
      step_input = Some \<lparr>io_text = Some safeContent,
                          io_fields = Some [(''originalLength'',
                                             JNumber (Num (of_nat (length safeContent))))]\<rparr>,
      step_output = Some \<lparr>io_text = Some (''Plan: retrieve '' @ [bullet] @ '' pack ''
                              @ [bullet] @ '' generate. Reformulated query: ''
                              @ [CHR 0x22] @ reformulated @ [CHR 0x22]),
                           io_fields = None\<rparr>,
      step_retrieval = None, step_contextWindow = None, step_model = None,
      step_note = Some ''Planner refined the query to improve retrieval.''\<rparr>"

definition route_step :: "string \<Rightarrow> protocol_step" where
  "route_step i =
     \<lparr>step_id = i, step_type = ''route'', step_actor = planner,
      step_input = None,
      step_output = Some \<lparr>io_text = Some ''Delegate retrieval to Researcher and writing to Writer.'',
                           io_fields = None\<rparr>,
      step_retrieval = None, step_contextWindow = None, step_model = None,
      step_note = Some ''Planner routed subtasks to agents.''\<rparr>"

definition retrieve_step :: "string \<Rightarrow> string \<Rightarrow> rag_chunk list \<Rightarrow> protocol_step" where
  "retrieve_step i query chunks =
     \<lparr>step_id = i, step_type = ''retrieve'', step_actor = researcher,
      step_input = Some \<lparr>io_text = Some query, io_fields = None\<rparr>,
      step_output = None,
      step_retrieval = Some \<lparr>batch_query = query, batch_items = chunks\<rparr>,
      step_contextWindow = None, step_model = None,
      step_note = Some (''Retrieved '' @ show_nat (length chunks)
                        @ '' unique items after deduplication and ranking.'')\<rparr>"

definition pack_step :: "string \<Rightarrow> context_window_item list \<Rightarrow> protocol_step" where
  "pack_step i contextItems =
     \<lparr>step_id = i, step_type = ''pack'', step_actor = planner,
      step_input = None, step_output = None, step_retrieval = None,
      step_contextWindow = Some contextItems, step_model = None,
      step_note = Some ''Packed system guidance, user input, and top retrievals (3) with token estimates.''\<rparr>"

definition generate_step ::
  "string \<Rightarrow> string \<Rightarrow> context_window_item list \<Rightarrow> message \<Rightarrow> llm_call_info \<Rightarrow> protocol_step"
where
  "generate_step j safeContent contextItems reply info =
     \<lparr>step_id = j, step_type = ''generate'', step_actor = writer,
      step_input = Some \<lparr>io_text = Some safeContent,
                          io_fields = Some [(''packedItems'',
                                             JNumber (Num (of_nat (length contextItems))))]\<rparr>,
      step_output = Some \<lparr>io_text = Some (msg_content reply), io_fields = None\<rparr>,
      step_retrieval = None, step_contextWindow = None,
      step_model = Some (FrontEnd info),
      step_note = Some ''LLM produced grounded response informed by retrieval.''\<rparr>"

text \<open>The function body up to the returned observable: the planner's state, the
  reformulated query (passed in) and the \<open>plan\<close> step.\<close>

definition mock_plan :: "env \<Rightarrow> string \<Rightarrow> string \<Rightarrow> string \<Rightarrow> world \<Rightarrow> exn + world" where
  "mock_plan e safeContent reformulated turnId w =
     (let w1 = setAgentState ''planner'' Thinking (Some (''Analyzing task'' @ [ellipsis])) w;
          (i, w2) = uuid e w1
      in mcp_appendStep turnId (local_plan_step i safeContent reformulated) w2)"

text \<open>The first \<open>tap\<close>, after the first delay: the \<open>route\<close> step.\<close>

definition mock_route :: "env \<Rightarrow> string \<Rightarrow> world \<Rightarrow> exn + world" where
  "mock_route e turnId w =
     (let w1 = setAgentState ''planner'' Retrieving
                 (Some (''Scoping and delegating'' @ [ellipsis])) w;
          (i, w2) = uuid e w1
      in mcp_appendStep turnId (route_step i) w2)"

text \<open>The second \<open>tap\<close>, first half: retrieval, deduplication and ranking, and the
  \<open>retrieve\<close> step. The query is \<open>reformulated || safeContent\<close>.\<close>

definition mock_retrieve ::
  "env \<Rightarrow> string \<Rightarrow> string \<Rightarrow> string \<Rightarrow> world \<Rightarrow> exn + (rag_context \<times> world)"
where
  "mock_retrieve e safeContent reformulated turnId w =
     (let w1 = setAgentState ''researcher'' Retrieving
                 (Some (''Searching knowledge base'' @ [ellipsis])) w;
          query = (if reformulated \<noteq> [] then reformulated else safeContent);
          (chunksRaw, w2) = mockRag e query w1;
          chunks = dedup_rank chunksRaw;
          (i, w3) = uuid e w2;
          rag = \<lparr>rag_query = query, rag_chunks = chunks\<rparr>
      in and_then (mcp_appendStep turnId (retrieve_step i query chunks) w3)
           (\<lambda>w4. Inr (rag, w4)))"

text \<open>The second \<open>tap\<close>, second half: context packing and the \<open>pack\<close> step.\<close>

definition mock_pack ::
  "env \<Rightarrow> string \<Rightarrow> string \<Rightarrow> rag_context \<Rightarrow> world \<Rightarrow> exn + (context_window_item list \<times> world)"
where
  "mock_pack e safeContent turnId rag w =
     (let w1 = setAgentState ''researcher'' Responding
                 (Some (''Ranking and summarizing'' @ [ellipsis])) w;
          (id1, w2) = uuid e w1;
          (id2, w3) = uuid e w2;
          contextItems = pack_items id1 id2 safeContent (rag_chunks rag);
          (i, w4) = uuid e w3
      in and_then (mcp_appendStep turnId (pack_step i contextItems) w4)
           (\<lambda>w5. Inr (contextItems,
                       setAgentState ''writer'' Thinking
                         (Some (''Drafting response'' @ [ellipsis])) w5)))"

text \<open>The callback of the 900 ms timer: token accounting, the reply message and the
  \<open>generate\<close> step.\<close>

definition mock_reply ::
  "env \<Rightarrow> string \<Rightarrow> string \<Rightarrow> string \<Rightarrow> rag_context \<Rightarrow> context_window_item list \<Rightarrow> string \<Rightarrow> message"
where
  "mock_reply e i selectedAgentId safeContent rag contextItems turnId =
     \<lparr>msg_id = i, msg_role = Agent,
      msg_content = generateReplyTailored safeContent rag selectedAgentId,
      msg_agentId = Some selectedAgentId, msg_context = Some rag,
      msg_llm = Some (llmInfo e contextItems), msg_protocolTurnId = Some turnId\<rparr>"

definition mock_generate ::
  "env \<Rightarrow> string \<Rightarrow> string \<Rightarrow> string \<Rightarrow> string \<Rightarrow> rag_context \<Rightarrow> context_window_item list
     \<Rightarrow> world \<Rightarrow> exn + world"
where
  "mock_generate e convId selectedAgentId safeContent turnId rag contextItems w =
     (let w1 = setAgentState ''planner'' Idle None w;
          w2 = setAgentState ''researcher'' Idle None w1;
          w3 = setAgentState ''writer'' Responding
                 (Some (''Finalizing response'' @ [ellipsis])) w2;
          (i, w4) = uuid e w3;
          reply = mock_reply e i selectedAgentId safeContent rag contextItems turnId;
          w5 = pushMessage convId reply w4;
          (j, w6) = uuid e w5
      in and_then
           (mcp_appendStep turnId
              (generate_step j safeContent contextItems reply (llmInfo e contextItems)) w6)
           (\<lambda>w7. Inr (setAgentState ''writer'' Idle None w7)))"

definition sendMessageMockPath ::
  "env \<Rightarrow> string \<Rightarrow> string \<Rightarrow> string \<Rightarrow> string \<Rightarrow> message \<Rightarrow> world \<Rightarrow> exn + (message \<times> world)"
where
  "sendMessageMockPath e convId selectedAgentId safeContent turnId userMsg w =
     (let reformulated = rewriteQueryForRetrieval safeContent
      in and_then (mock_plan e safeContent reformulated turnId w) (\<lambda>w1.
         and_then (mock_route e turnId w1) (\<lambda>w2.
         and_then (mock_retrieve e safeContent reformulated turnId w2) (\<lambda>(rag, w3).
         and_then (mock_pack e safeContent turnId rag w3) (\<lambda>(contextItems, w4).
         and_then (mock_generate e convId selectedAgentId safeContent turnId rag contextItems w4)
           (\<lambda>w5. Inr (userMsg, w5)))))))"

subsection \<open>The remote backend (\<open>LlmClientService\<close>)\<close>

text \<open>\<open>!!environment.LLM_API_URL\<close>\<close>

definition isConfigured :: "env \<Rightarrow> bool" where
  "isConfigured e = (LLM_API_URL e \<noteq> [])"

text \<open>
  \<open>chatCompletions(req)\<close>: an error when no URL is configured; otherwise the one HTTP
  exchange, whose failure is passed on, and whose body is completed (\<open>res?.content ?? ''\<close>,
  \<open>res?.protocol ?? []\<close>) with the model information copied field by field, unchecked.
\<close>

definition chatCompletions :: "env \<Rightarrow> llm_request \<Rightarrow> js_error + llm_response" where
  "chatCompletions e req =
     (if \<not> isConfigured e
      then Inl \<lparr>err_message = Some ''LLM backend not configured'',
                err_string = ''Error: LLM backend not configured''\<rparr>
      else (case http_post e req of
              Inl err \<Rightarrow> Inl err
            | Inr None \<Rightarrow>
                Inr \<lparr>res_content = [], res_context = None, res_llm = None,
                     res_protocol = Entries []\<rparr>
            | Inr (Some res) \<Rightarrow>
                Inr \<lparr>res_content = (case body_content res of None \<Rightarrow> [] | Some c \<Rightarrow> c),
                     res_context = body_context res,
                     res_llm = (case body_llm res of
                                  None \<Rightarrow> None
                                | Some l \<Rightarrow>
                                    Some \<lparr>info_model = info_model l,
                                          info_params = info_params l,
                                          info_tokens = info_tokens l,
                                          info_latencyMs = info_latencyMs l\<rparr>),
                     res_protocol = (case body_protocol res of
                                       None \<Rightarrow> Entries []
                                     | Some ps \<Rightarrow> ps)\<rparr>))"

subsection \<open>\<open>sendMessage\<close>\<close>

text \<open>One step of the response as \<open>applyBackendProtocol\<close> stores it: \<open>s.id\<close> (or the
  \<open>uuid()\<close> drawn for a missing one), \<open>s.type || 'plan'\<close>, \<open>s.actor || {backend}\<close>, and
  the other fields as they came.\<close>

definition backend_step_type :: "llm_step \<Rightarrow> string" where
  "backend_step_type s =
     (case bs_type s of None \<Rightarrow> ''plan'' | Some t \<Rightarrow> if t \<noteq> [] then t else ''plan'')"

definition backend_step :: "string \<Rightarrow> llm_step \<Rightarrow> protocol_step" where
  "backend_step i s =
     \<lparr>step_id = i,
      step_type = backend_step_type s,
      step_actor = (case bs_actor s of None \<Rightarrow> backend_actor | Some a \<Rightarrow> a),
      step_input = bs_input s, step_output = bs_output s,
      step_retrieval = bs_retrieval s,
      step_contextWindow = bs_contextWindow s,
      step_model = map_option BackEnd (bs_model s),
      step_note = bs_note s\<rparr>"

text \<open>
  \<^verbatim>\<open>const steps = (res.protocol || []) as any[];
for (const s of steps) {
  const step: ProtocolStep = { id: s.id || this.uuid(), ... };
  this.mcp.appendStep(turnId, step);
}\<close>
  One \<open>appendStep\<close> per entry, in order. An exception leaves the loop at once: \<open>Inl\<close>
  carries the site and the state reached, in which the steps appended so far stay.
\<close>

fun applyBackendProtocol_loop ::
  "env \<Rightarrow> string \<Rightarrow> llm_step option list \<Rightarrow> world \<Rightarrow> (type_error_site \<times> world) + world"
where
  "applyBackendProtocol_loop e turnId [] w = Inr w"
| "applyBackendProtocol_loop e turnId (None # rest) w = Inl (ReadOfNull, w)"
| "applyBackendProtocol_loop e turnId (Some s # rest) w =
     (let (i, w1) = (case bs_id s of
                       None \<Rightarrow> uuid e w
                     | Some x \<Rightarrow> if x \<noteq> [] then (x, w) else uuid e w)
      in case mcp_appendStep turnId (backend_step i s) w1 of
           Inl x \<Rightarrow> Inl (SpreadOfUndefined, w1)
         | Inr w2 \<Rightarrow> applyBackendProtocol_loop e turnId rest w2)"

definition applyBackendProtocol ::
  "env \<Rightarrow> string \<Rightarrow> llm_response \<Rightarrow> world \<Rightarrow> (type_error_site \<times> world) + world"
where
  "applyBackendProtocol e turnId res w =
     (case res_protocol res of
        NotIterable \<Rightarrow> Inl (IterationOfNonIterable, w)
      | Entries steps \<Rightarrow> applyBackendProtocol_loop e turnId steps w)"

text \<open>
  \<^verbatim>\<open>const normLlm = res.llm ? {
    model: res.llm.model,
    params: this.toNumberRecord(res.llm.params),
    tokens: { prompt: this.toNumberOrUndefined((res.llm.tokens as any)?.prompt),
              completion: ..., total: ... },
    latencyMs: this.toNumberOrUndefined(res.llm.latencyMs),
  } : undefined;\<close>
\<close>

definition normLlm :: "env \<Rightarrow> llm_model_info option \<Rightarrow> llm_call_info option" where
  "normLlm e l =
     (case l of
        None \<Rightarrow> None
      | Some info \<Rightarrow>
          Some \<lparr>llm_model = info_model info,
                llm_params = toNumberRecord (StringToNumber e) (info_params info),
                llm_tokens =
                  Some \<lparr>tokens_prompt = toNumberOrUndefined (StringToNumber e)
                           (case info_tokens info of None \<Rightarrow> JUndefined | Some t \<Rightarrow> usage_prompt t),
                        tokens_completion = toNumberOrUndefined (StringToNumber e)
                           (case info_tokens info of None \<Rightarrow> JUndefined | Some t \<Rightarrow> usage_completion t),
                        tokens_total = toNumberOrUndefined (StringToNumber e)
                           (case info_tokens info of None \<Rightarrow> JUndefined | Some t \<Rightarrow> usage_total t)\<rparr>,
                llm_latencyMs = toNumberOrUndefined (StringToNumber e) (info_latencyMs info)\<rparr>)"

text \<open>The reply message composed from a backend response.\<close>

definition backend_reply :: "env \<Rightarrow> string \<Rightarrow> string \<Rightarrow> string \<Rightarrow> llm_response \<Rightarrow> message" where
  "backend_reply e i selectedAgentId turnId res =
     \<lparr>msg_id = i, msg_role = Agent,
      msg_content = (if res_content res \<noteq> [] then res_content res else ''(no content)''),
      msg_agentId = Some selectedAgentId,
      msg_context = res_context res,
      msg_llm = normLlm e (res_llm res),
      msg_protocolTurnId = Some turnId\<rparr>"

text \<open>The two \<open>tap\<close>s of the remote path: the backend's steps, the reply message, the
  planner back to idle. An exception raised by the first leaves both.\<close>

definition remote_success ::
  "env \<Rightarrow> string \<Rightarrow> string \<Rightarrow> string \<Rightarrow> llm_response \<Rightarrow> world
     \<Rightarrow> (type_error_site \<times> world) + world"
where
  "remote_success e convId selectedAgentId turnId res w =
     (case applyBackendProtocol e turnId res w of
        Inl thrown \<Rightarrow> Inl thrown
      | Inr w1 \<Rightarrow>
          (let (i, w2) = uuid e w1;
               w3 = pushMessage convId (backend_reply e i selectedAgentId turnId res) w2
           in Inr (setAgentState ''planner'' Idle None w3)))"

text \<open>The \<open>error\<close> step of the handler of \<open>catchError\<close>; its note is
  \<open>`Backend error: ${err?.message || String(err)}`\<close>.\<close>

definition error_step :: "string \<Rightarrow> js_error \<Rightarrow> protocol_step" where
  "error_step i err =
     \<lparr>step_id = i, step_type = ''error'', step_actor = backend_actor,
      step_input = None, step_output = None, step_retrieval = None,
      step_contextWindow = None, step_model = None,
      step_note = Some (''Backend error: ''
                        @ (case err_message err of
                             None \<Rightarrow> err_string err
                           | Some m \<Rightarrow> if m \<noteq> [] then m else err_string err))\<rparr>"

text \<open>The handler of \<open>catchError\<close>: the \<open>error\<close> step, then the local path.\<close>

definition remote_failure ::
  "env \<Rightarrow> string \<Rightarrow> string \<Rightarrow> string \<Rightarrow> string \<Rightarrow> message \<Rightarrow> js_error \<Rightarrow> world
     \<Rightarrow> exn + (message \<times> world)"
where
  "remote_failure e convId selectedAgentId safeContent turnId userMsg err w =
     (let (i, w1) = uuid e w
      in and_then (mcp_appendStep turnId (error_step i err) w1)
           (sendMessageMockPath e convId selectedAgentId safeContent turnId userMsg))"

text \<open>The \<open>plan\<close> step of the remote path.\<close>

definition remote_plan_step :: "string \<Rightarrow> string \<Rightarrow> protocol_step" where
  "remote_plan_step pid safeContent =
     \<lparr>step_id = pid, step_type = ''plan'', step_actor = planner,
      step_input = Some \<lparr>io_text = Some safeContent, io_fields = None\<rparr>,
      step_output = Some \<lparr>io_text = Some ''Send to LLM backend with optional RAG.'',
                           io_fields = None\<rparr>,
      step_retrieval = None, step_contextWindow = None, step_model = None,
      step_note = Some ''Frontend delegated retrieval and generation to backend.''\<rparr>"

definition user_message :: "string \<Rightarrow> string \<Rightarrow> string \<Rightarrow> message" where
  "user_message mid safeContent turnId =
     \<lparr>msg_id = mid, msg_role = User, msg_content = safeContent,
      msg_agentId = None, msg_context = None, msg_llm = None,
      msg_protocolTurnId = Some turnId\<rparr>"

definition chat_request :: "string \<Rightarrow> string \<Rightarrow> llm_request" where
  "chat_request safeContent selectedAgentId =
     \<lparr>req_messages = [(''system'', system_prompt), (''user'', safeContent)],
      req_agentId = selectedAgentId,
      req_params = model_params,
      req_rag_enable = True, req_rag_k = 5\<rparr>"

text \<open>
  \<open>sendMessage(content)\<close>, from the call to the point where the returned observable has
  delivered its message and no timer is pending. \<open>Inr\<close> carries the message the
  observable delivers and the final state; \<open>Inl\<close> is an exception that escapes.
  \<open>catchError\<close> stands behind the call of the backend and behind the \<open>tap\<close>s: its
  handler runs when the call fails and also when handling the answer raises an exception,
  then in the state the handling had reached.
\<close>

definition sendMessage :: "env \<Rightarrow> string \<Rightarrow> world \<Rightarrow> exn + (message \<times> world)" where
  "sendMessage e content w =
     (let convId = activeConversationId w;
          selectedAgentId = (if activeAgentId w \<noteq> [] then activeAgentId w else ''writer'');
          safeContent = sanitize content;
          (turnId, w1) = uuid e w;
          w2 = mcp_addProtocol turnId w1;
          (mid, w3) = uuid e w2;
          userMsg = user_message mid safeContent turnId;
          w4 = pushMessage convId userMsg w3
      in if \<not> isConfigured e
         then sendMessageMockPath e convId selectedAgentId safeContent turnId userMsg w4
         else
           (let w5 = setAgentState ''planner'' Thinking
                       (Some (''Contacting backend'' @ [ellipsis])) w4;
                req = chat_request safeContent selectedAgentId;
                (pid, w6) = uuid e w5
            in and_then (mcp_appendStep turnId (remote_plan_step pid safeContent) w6)
                 (\<lambda>w7. case chatCompletions e req of
                          Inr res \<Rightarrow>
                            (case remote_success e convId selectedAgentId turnId res w7 of
                               Inr w8 \<Rightarrow> Inr (userMsg, w8)
                             | Inl (site, w8) \<Rightarrow>
                                 remote_failure e convId selectedAgentId safeContent turnId
                                   userMsg (type_error e site) w8)
                        | Inl err \<Rightarrow>
                            remote_failure e convId selectedAgentId safeContent turnId userMsg
                              err w7)))"

text \<open>The store holds a timeline for the turn, with exactly these steps.\<close>

definition has_timeline :: "world \<Rightarrow> string \<Rightarrow> protocol_step list \<Rightarrow> bool" where
  "has_timeline w turnId xs =
     (case protocols w turnId of None \<Rightarrow> False | Some p \<Rightarrow> mcp_steps p = xs)"

text \<open>The kinds of the steps recorded for a turn, in order.\<close>

definition timeline_kinds :: "world \<Rightarrow> string \<Rightarrow> string list" where
  "timeline_kinds w turnId = map step_type (protocol_steps (protocols w) turnId)"

subsection \<open>What the local path records\<close>

text \<open>The retrieval query of the local path, \<open>reformulated || safeContent\<close>.\<close>

definition local_query :: "string \<Rightarrow> string" where
  "local_query safeContent =
     (let reformulated = rewriteQueryForRetrieval safeContent
      in if reformulated \<noteq> [] then reformulated else safeContent)"

text \<open>The reply of the local path and its five steps, given the retrieved chunks, the
  packed items and the six identifiers drawn for the steps and the reply.\<close>

definition local_reply ::
  "env \<Rightarrow> string \<Rightarrow> string \<Rightarrow> string \<Rightarrow> string \<Rightarrow> rag_chunk list \<Rightarrow> context_window_item list
     \<Rightarrow> message"
where
  "local_reply e i agent safeContent turnId chunks items =
     mock_reply e i agent safeContent
       \<lparr>rag_query = local_query safeContent, rag_chunks = chunks\<rparr> items turnId"

definition local_steps ::
  "env \<Rightarrow> string \<Rightarrow> string \<Rightarrow> string \<Rightarrow> rag_chunk list \<Rightarrow> context_window_item list
     \<Rightarrow> string list \<Rightarrow> protocol_step list"
where
  "local_steps e agent safeContent turnId chunks items ids =
     [local_plan_step (ids ! 0) safeContent (rewriteQueryForRetrieval safeContent),
      route_step (ids ! 1),
      retrieve_step (ids ! 2) (local_query safeContent) chunks,
      pack_step (ids ! 3) items,
      generate_step (ids ! 4) safeContent items
        (local_reply e (ids ! 5) agent safeContent turnId chunks items) (llmInfo e items)]"

section \<open>Reading the outcome of a turn\<close>

text \<open>The identifier \<open>sendMessage\<close> draws for the turn: the result of its first call of
  \<open>uuid()\<close>.\<close>

definition turn_id :: "env \<Rightarrow> world \<Rightarrow> string" where
  "turn_id e w = uuid_stream e (uuid_calls w)"

text \<open>\<open>this.activeAgentId$.value || 'writer'\<close>\<close>

definition selected_agent :: "world \<Rightarrow> string" where
  "selected_agent w = (if activeAgentId w \<noteq> [] then activeAgentId w else ''writer'')"

text \<open>The user message of the turn; its identifier is the second \<open>uuid()\<close> of the call.\<close>

definition turn_message :: "env \<Rightarrow> string \<Rightarrow> world \<Rightarrow> message" where
  "turn_message e content w =
     user_message (uuid_stream e (Suc (uuid_calls w))) (sanitize content) (turn_id e w)"

text \<open>The state after \<open>sendMessage\<close> has registered the turn and pushed the user
  message, before it chooses its path.\<close>

definition after_user_message :: "env \<Rightarrow> string \<Rightarrow> world \<Rightarrow> world" where
  "after_user_message e content w =
     pushMessage (activeConversationId w) (turn_message e content w)
       (snd (uuid e (mcp_addProtocol (turn_id e w) (snd (uuid e w)))))"

text \<open>The request \<open>sendMessage\<close> sends to the backend.\<close>

definition turn_request :: "string \<Rightarrow> world \<Rightarrow> llm_request" where
  "turn_request content w = chat_request (sanitize content) (selected_agent w)"

text \<open>Handling an answer raises an exception when its protocol cannot be iterated or
  holds a \<open>null\<close> entry; the entries applied before that are those in front of the first
  \<open>null\<close>.\<close>

definition handling_throws :: "llm_response \<Rightarrow> bool" where
  "handling_throws res =
     (case res_protocol res of NotIterable \<Rightarrow> True | Entries steps \<Rightarrow> None \<in> set steps)"

fun entries_before_null :: "llm_step option list \<Rightarrow> llm_step list" where
  "entries_before_null [] = []"
| "entries_before_null (None # rest) = []"
| "entries_before_null (Some s # rest) = s # entries_before_null rest"

definition applied_entries :: "llm_response \<Rightarrow> llm_step list" where
  "applied_entries res =
     (case res_protocol res of NotIterable \<Rightarrow> [] | Entries steps \<Rightarrow> entries_before_null steps)"

text \<open>The remote path was attempted and failed: a backend is configured, and either the
  call failed or handling its answer raised an exception.\<close>

definition remote_failed :: "env \<Rightarrow> string \<Rightarrow> world \<Rightarrow> bool" where
  "remote_failed e content w =
     (isConfigured e \<and>
      (case chatCompletions e (turn_request content w) of
         Inl err \<Rightarrow> True
       | Inr res \<Rightarrow> handling_throws res))"






section \<open>Example inputs\<close>

text \<open>The state in which \<open>ChatService\<close> starts: three idle agents, the conversation
  \<open>conv-1\<close> with its greeting (whose identifier is the first \<open>uuid()\<close>), and no timeline.\<close>

definition initial_world :: "env \<Rightarrow> world" where
  "initial_world e =
     \<lparr>conversations =
        [\<lparr>conv_id = ''conv-1'', conv_title = ''Welcome'', conv_agentId = ''planner'',
          conv_messages =
            [\<lparr>msg_id = uuid_stream e 0, msg_role = Agent,
              msg_content = ''Hello! I am your multi-agent assistant. How can we help today?'',
              msg_agentId = Some ''planner'', msg_context = None, msg_llm = None,
              msg_protocolTurnId = None\<rparr>]\<rparr>],
      activeConversationId = ''conv-1'',
      activeAgentId = ''planner'',
      agents =
        [\<lparr>agent_id = ''planner'', agent_name = ''Planner'',
          agent_description = ''Decomposes tasks and orchestrates sub-agents.'',
          agent_expertise = [''Planning'', ''Decomposition'', ''Coordination''],
          state = \<lparr>status = Idle, status_note = None\<rparr>\<rparr>,
         \<lparr>agent_id = ''researcher'', agent_name = ''Researcher'',
          agent_description = ''Finds and ranks relevant information from knowledge sources.'',
          agent_expertise = [''RAG'', ''Ranking'', ''Summarization''],
          state = \<lparr>status = Idle, status_note = None\<rparr>\<rparr>,
         \<lparr>agent_id = ''writer'', agent_name = ''Writer'',
          agent_description = ''Crafts articulate, context-aware responses.'',
          agent_expertise = [''Writing'', ''Synthesis'', ''Clarity''],
          state = \<lparr>status = Idle, status_note = None\<rparr>\<rparr>],
      protocols = Map.empty,
      uuid_calls = 1\<rparr>"

definition timeout_error :: js_error where
  "timeout_error = \<lparr>err_message = Some ''Timeout has occurred'',
                    err_string = ''TimeoutError: Timeout has occurred''\<rparr>"

text \<open>No backend is configured.\<close>

definition offline_env :: env where
  "offline_env =
     \<lparr>LLM_API_URL = [],
      http_post = (\<lambda>req. Inl timeout_error),
      StringToNumber = (\<lambda>s. if s = ''0.2'' then Num 0.2 else NaN),
      random_nibble = (\<lambda>n k. n + k),
      penalised_score = (\<lambda>sc i. sc - of_nat i * 0.025),
      elapsed_ms = 900,
      TypeError_message =
        (\<lambda>site. case site of
                  ReadOfNull \<Rightarrow> ''Cannot read properties of null''
                | IterationOfNonIterable \<Rightarrow> ''steps is not iterable''
                | SpreadOfUndefined \<Rightarrow> ''undefined is not iterable'')\<rparr>"

text \<open>A backend is configured and the exchange times out.\<close>

definition failing_env :: env where
  "failing_env = offline_env\<lparr>LLM_API_URL := ''https://llm.example/api''\<rparr>"








section \<open>Properties of the string operations\<close>

lemma collapse_ws_non_space_prefix:
  "\<forall>c\<in>set w. \<not> is_space c \<Longrightarrow> collapse_ws (w @ r) = w @ collapse_ws r"
  by (induction w) auto

lemma is_space_SP: "is_space CHR '' ''"
  by (simp add: is_space_def)

lemma trimEnd_append:
  "trimEnd (w @ r) = (if \<forall>c\<in>set r. is_space c then trimEnd w else w @ trimEnd r)"
  by (simp add: trimEnd_def dropWhile_append)

lemma trimEnd_eq_Nil: "trimEnd s = [] \<longleftrightarrow> (\<forall>c\<in>set s. is_space c)"
  by (simp add: trimEnd_def)

lemma join_tokens_Cons:
  "join_with sep (w # ws) = (if ws = [] then w else w @ sep # join_with sep ws)"
  by (cases ws) auto

lemma ws_tokens_non_empty: "[] \<notin> set (ws_tokens s)"
proof (induction s rule: ws_tokens.induct)
  case (1 s)
  show ?case
  proof (cases "dropWhile is_space s")
    case Nil
    have "ws_tokens s = []" by (subst ws_tokens.simps) (simp only: Nil list.case)
    then show ?thesis by simp
  next
    case (Cons c cs)
    have "\<not> is_space c" using Cons hd_dropWhile [of is_space s] by auto
    moreover have "ws_tokens s = takeWhile non_space (c # cs) # ws_tokens (dropWhile non_space cs)"
      by (subst ws_tokens.simps) (simp only: Cons list.case)
    ultimately show ?thesis using 1 [OF Cons] by (simp add: non_space_def)
  qed
qed


lemma dropWhile_head_non_space:
  "dropWhile is_space s = c # cs \<Longrightarrow> \<not> is_space c"
  using hd_dropWhile [of is_space s] by auto

lemma dropWhile_head_space:
  "dropWhile non_space s = c # cs \<Longrightarrow> is_space c"
  using hd_dropWhile [of non_space s] by (auto simp: non_space_def)

lemma dropWhile_collapse_ws_start:
  "s = [] \<or> \<not> is_space (hd s) \<Longrightarrow> dropWhile is_space (collapse_ws s) = collapse_ws s"
  by (cases s) auto

lemma dropWhile_start:
  "dropWhile is_space s = [] \<or> \<not> is_space (hd (dropWhile is_space s))"
  by (cases "dropWhile is_space s") (auto dest: dropWhile_head_non_space)

lemma dropWhile_collapse_ws:
  "dropWhile is_space (collapse_ws s) = collapse_ws (dropWhile is_space s)"
proof (cases s)
  case Nil
  then show ?thesis by simp
next
  case (Cons c cs)
  show ?thesis
  proof (cases "is_space c")
    case False
    then show ?thesis using Cons by simp
  next
    case True
    then show ?thesis
      using Cons dropWhile_collapse_ws_start [OF dropWhile_start [of cs]]
      by (simp add: is_space_SP)
  qed
qed

lemma dropWhile_none:
  "\<forall>x\<in>set xs. \<not> P x \<Longrightarrow> dropWhile P xs = xs"
  by (cases xs) auto

lemma trimEnd_non_space:
  "\<forall>c\<in>set w. \<not> is_space c \<Longrightarrow> trimEnd w = w"
  by (simp add: trimEnd_def dropWhile_none)

lemma join_with_eq_Nil:
  "[] \<notin> set ws \<Longrightarrow> join_with sep ws = [] \<longleftrightarrow> ws = []"
  by (cases ws) (auto simp: join_tokens_Cons)

lemma trim_collapse_ws:
  "trim (collapse_ws s) = join_with CHR '' '' (ws_tokens s)"
proof (induction s rule: ws_tokens.induct)
  case (1 s)
  show ?case
  proof (cases "dropWhile is_space s")
    case Nil
    have "collapse_ws (dropWhile is_space s) = []" unfolding Nil by simp
    moreover have "ws_tokens s = []" by (subst ws_tokens.simps) (simp only: Nil list.case)
    ultimately show ?thesis
      by (simp add: trim_def trimEnd_def dropWhile_collapse_ws)
  next
    case (Cons c cs)
    define w where "w = takeWhile non_space (c # cs)"
    define r where "r = dropWhile non_space cs"
    define X where "X = collapse_ws (dropWhile is_space r)"
    have c: "\<not> is_space c"
      using Cons by (rule dropWhile_head_non_space)
    have w: "\<forall>x\<in>set w. \<not> is_space x"
      unfolding w_def using set_takeWhileD [of _ non_space "c # cs"]
      by (auto simp: non_space_def)
    have split: "c # cs = w @ r"
      unfolding w_def r_def using c by (simp add: non_space_def)
    have toks: "ws_tokens s = w # ws_tokens r"
      by (subst ws_tokens.simps) (simp only: Cons list.case w_def r_def)
    have "trim (collapse_ws r) = join_with CHR '' '' (ws_tokens r)"
      using 1 [OF Cons] by (simp add: r_def)
    then have IH: "trimEnd X = join_with CHR '' '' (ws_tokens r)"
      by (simp add: trim_def dropWhile_collapse_ws X_def)
    have lhs: "trim (collapse_ws s) = trimEnd (w @ collapse_ws r)"
      by (simp add: trim_def dropWhile_collapse_ws Cons split collapse_ws_non_space_prefix [OF w])
    have r_shape: "collapse_ws r = [] \<and> X = [] \<or> collapse_ws r = CHR '' '' # X"
    proof (cases r)
      case Nil
      then show ?thesis by (simp add: X_def)
    next
      case (Cons d ds)
      then have "is_space d"
        unfolding r_def by (rule dropWhile_head_space)
      then show ?thesis using Cons by (simp add: X_def)
    qed
    note sp = is_space_SP
    show ?thesis
    proof (cases "\<forall>x\<in>set X. is_space x")
      case True
      then have "join_with CHR '' '' (ws_tokens r) = []"
        unfolding IH [symmetric] by (simp add: trimEnd_eq_Nil)
      then have nil: "ws_tokens r = []"
        by (simp add: join_with_eq_Nil [OF ws_tokens_non_empty])
      have "\<forall>x\<in>set (collapse_ws r). is_space x"
        using r_shape True sp by auto
      then have "trim (collapse_ws s) = w"
        unfolding lhs by (simp add: trimEnd_append trimEnd_non_space [OF w])
      then show ?thesis
        unfolding toks nil by simp
    next
      case False
      then have "X \<noteq> []" by auto
      then have cr: "collapse_ws r = CHR '' '' # X" using r_shape by blast
      have "trimEnd X \<noteq> []"
        using False by (simp add: trimEnd_eq_Nil)
      then have ne: "ws_tokens r \<noteq> []"
        unfolding IH by auto
      have "trimEnd (CHR '' '' # X) = CHR '' '' # trimEnd X"
        using trimEnd_append [of "[CHR '' '']" X] False by simp
      moreover have "\<not> (\<forall>x\<in>set (CHR '' '' # X). is_space x)"
        using False by simp
      ultimately have "trim (collapse_ws s) = w @ CHR '' '' # join_with CHR '' '' (ws_tokens r)"
        unfolding lhs cr IH [symmetric] using False sp by (auto simp: trimEnd_append)
      moreover obtain v vs where "ws_tokens r = v # vs"
        using ne by (cases "ws_tokens r") auto
      ultimately show ?thesis
        unfolding toks by simp
    qed
  qed
qed


lemma ws_tokens_no_space:
  "w \<in> set (ws_tokens s) \<Longrightarrow> c \<in> set w \<Longrightarrow> \<not> is_space c"
proof (induction s rule: ws_tokens.induct)
  case (1 s)
  show ?case
  proof (cases "dropWhile is_space s")
    case Nil
    have "ws_tokens s = []" by (subst ws_tokens.simps) (simp only: Nil list.case)
    then show ?thesis using 1(2) by simp
  next
    case (Cons d ds)
    have eq: "ws_tokens s = takeWhile non_space (d # ds) # ws_tokens (dropWhile non_space ds)"
      by (subst ws_tokens.simps) (simp only: Cons list.case)
    show ?thesis
    proof (cases "w = takeWhile non_space (d # ds)")
      case True
      then show ?thesis
        using set_takeWhileD [of c non_space "d # ds"] 1(3) by (simp add: non_space_def)
    next
      case False
      then have "w \<in> set (ws_tokens (dropWhile non_space ds))"
        using 1(2) eq by simp
      then show ?thesis using 1(1) [OF Cons _ 1(3)] by simp
    qed
  qed
qed

lemma split_on_no_sep: "sep \<notin> set w \<Longrightarrow> split_on sep w = [w]"
  by (induction w) auto

lemma split_on_append_sep:
  "sep \<notin> set w \<Longrightarrow> split_on sep (w @ sep # r) = w # split_on sep r"
  by (induction w) auto

lemma split_on_join_with:
  "ws \<noteq> [] \<Longrightarrow> \<forall>w\<in>set ws. sep \<notin> set w \<Longrightarrow> split_on sep (join_with sep ws) = ws"
  by (induction sep ws rule: join_with.induct)
     (simp_all add: split_on_no_sep split_on_append_sep)

lemma join_take_split_join:
  assumes "\<forall>w\<in>set ws. sep \<notin> set w"
  shows "join_with sep (take n (split_on sep (join_with sep ws))) = join_with sep (take n ws)"
proof (cases ws)
  case Nil
  then show ?thesis by (cases n) simp_all
next
  case (Cons a list)
  then show ?thesis using split_on_join_with [of ws sep] assms by simp
qed


text \<open>Collapsing the whitespace runs and trimming leaves the whitespace-separated tokens
  of the input, joined by single spaces.\<close>

lemma sanitize_tokens: "sanitize raw = take 4000 (join_with CHR '' '' (ws_tokens raw))"
  by (simp add: sanitize_def trim_collapse_ws)

section \<open>Query reformulation\<close>

lemma word_boundary_prev_word: "word_boundary p n = (prev_word p \<noteq> prev_word n)"
  by (simp add: word_boundary_def prev_word_def)

lemma prev_word_first_char:
  "prev_word (first_char s) = (s \<noteq> [] \<and> is_word_char (hd s))"
  by (cases s) (simp_all add: prev_word_def first_char_def)

lemma prev_word_Some [simp]: "prev_word (Some c) = is_word_char c"
  by (simp add: prev_word_def)

lemma not_prev_word_dropWhile:
  "\<not> prev_word (first_char (dropWhile is_word_char xs))"
proof (cases "dropWhile is_word_char xs")
  case Nil
  show ?thesis unfolding Nil by (simp add: prev_word_def first_char_def)
next
  case (Cons a l)
  have "\<not> is_word_char (hd (dropWhile is_word_char xs))"
    by (rule hd_dropWhile) (simp only: Cons list.distinct not_False_eq_True)
  then have "\<not> is_word_char a"
    unfolding Cons by simp
  then show ?thesis unfolding Cons by (simp add: prev_word_def first_char_def)
qed

lemma filler_word_chars:
  "is_word_char CHR ''p''" "is_word_char CHR ''k''" "is_word_char CHR ''c''"
  "is_word_char CHR ''w''" "is_word_char CHR ''t''" "\<not> is_word_char CHR '' ''"
  by (simp_all add: is_word_char_def)

lemma match_filler_inside:
  "prev_word prev \<Longrightarrow> is_word_char c \<Longrightarrow> match_filler prev (c # cs) = None"
  by (simp add: match_filler_def find_None_iff word_boundary_prev_word prev_word_first_char)

lemma match_filler_non_word:
  "\<not> is_word_char c \<Longrightarrow> match_filler prev (c # cs) = None"
  using filler_word_chars
  by (auto simp: match_filler_def find_None_iff fillers_def)

lemma strip_fillers_inside:
  "is_word_char p \<Longrightarrow> \<forall>c\<in>set u. is_word_char c \<Longrightarrow>
   strip_fillers (Some p) (u @ r) = u @ strip_fillers (Some (last (p # u))) r"
proof (induction u arbitrary: p)
  case Nil
  then show ?case by simp
next
  case (Cons a u)
  have "match_filler (Some p) (a # u @ r) = None"
    using Cons.prems by (simp add: match_filler_inside)
  then show ?case
    using Cons.IH [of a] Cons.prems by simp
qed

text \<open>A filler of one word matches at the start of a word exactly when it is the whole
  word.\<close>

lemma single_match:
  assumes "f \<noteq> []" and "\<forall>c\<in>set f. is_word_char c" and "\<not> prev_word prev"
  shows "(take (length f) s = f \<and> word_boundary prev (first_char s) \<and>
          word_boundary (Some (last f)) (first_char (drop (length f) s))) =
         (takeWhile is_word_char s = f)"
proof
  assume a: "take (length f) s = f \<and> word_boundary prev (first_char s) \<and>
          word_boundary (Some (last f)) (first_char (drop (length f) s))"
  define r where "r = drop (length f) s"
  have s: "s = f @ r"
    using a by (metis append_take_drop_id r_def)
  have "is_word_char (last f)" using assms(1,2) by simp
  then have "\<not> prev_word (first_char r)"
    using a by (simp add: word_boundary_prev_word r_def)
  then have "takeWhile is_word_char r = []"
    by (cases r) (simp_all add: prev_word_first_char)
  then show "takeWhile is_word_char s = f"
    using assms(2) by (simp add: s takeWhile_append2)
next
  assume b: "takeWhile is_word_char s = f"
  have s: "s = f @ dropWhile is_word_char s"
    using takeWhile_dropWhile_id [of is_word_char s] b by simp
  have 1: "take (length f) s = f"
    by (subst s) simp
  have 2: "drop (length f) s = dropWhile is_word_char s"
    by (subst s) simp
  have 3: "s \<noteq> [] \<and> is_word_char (hd s)"
    using 1 assms(1,2) by (cases s; cases f) auto
  have 4: "\<not> prev_word (first_char (dropWhile is_word_char s))"
    by (rule not_prev_word_dropWhile)
  have "is_word_char (last f)" using assms(1,2) by simp
  then show "take (length f) s = f \<and> word_boundary prev (first_char s) \<and>
          word_boundary (Some (last f)) (first_char (drop (length f) s))"
    using 1 2 3 4 assms(3) by (simp add: word_boundary_prev_word prev_word_first_char)
qed

text \<open>A filler of two words matches at the start of a word exactly when that word is its
  first word, one space follows, and the next word is its second word.\<close>

lemma double_match:
  assumes "h \<noteq> []" and "\<forall>c\<in>set h. is_word_char c"
    and "y \<noteq> []" and "\<forall>c\<in>set y. is_word_char c" and "\<not> prev_word prev"
  shows "(take (length (h @ CHR '' '' # y)) s = h @ CHR '' '' # y \<and>
          word_boundary prev (first_char s) \<and>
          word_boundary (Some (last (h @ CHR '' '' # y)))
            (first_char (drop (length (h @ CHR '' '' # y)) s))) =
         (takeWhile is_word_char s = h \<and>
          (\<exists>r2. dropWhile is_word_char s = CHR '' '' # r2 \<and> takeWhile is_word_char r2 = y))"
proof
  assume a: "take (length (h @ CHR '' '' # y)) s = h @ CHR '' '' # y \<and>
          word_boundary prev (first_char s) \<and>
          word_boundary (Some (last (h @ CHR '' '' # y)))
            (first_char (drop (length (h @ CHR '' '' # y)) s))"
  define r where "r = drop (length (h @ CHR '' '' # y)) s"
  have s: "s = h @ CHR '' '' # y @ r"
    using a append_take_drop_id [of "length (h @ CHR '' '' # y)" s] by (simp add: r_def)
  have "is_word_char (last y)" using assms(3,4) by simp
  then have "\<not> prev_word (first_char r)"
    using a assms(3) by (simp add: word_boundary_prev_word r_def)
  then have r: "takeWhile is_word_char r = []"
    by (cases r) (simp_all add: prev_word_first_char)
  have 1: "takeWhile is_word_char s = h"
    using assms(2) filler_word_chars(6) by (simp add: s takeWhile_append2)
  have 2: "dropWhile is_word_char s = CHR '' '' # y @ r"
    using assms(2) filler_word_chars(6) by (simp add: s dropWhile_append2)
  have 3: "takeWhile is_word_char (y @ r) = y"
    using assms(4) r by (simp add: takeWhile_append2)
  from 1 2 3 show "takeWhile is_word_char s = h \<and>
          (\<exists>r2. dropWhile is_word_char s = CHR '' '' # r2 \<and> takeWhile is_word_char r2 = y)"
    by blast
next
  assume b: "takeWhile is_word_char s = h \<and>
          (\<exists>r2. dropWhile is_word_char s = CHR '' '' # r2 \<and> takeWhile is_word_char r2 = y)"
  then obtain r2 where r2: "dropWhile is_word_char s = CHR '' '' # r2"
      "takeWhile is_word_char r2 = y"
    by blast
  have s: "s = h @ CHR '' '' # y @ dropWhile is_word_char r2"
    using takeWhile_dropWhile_id [of is_word_char s]
      takeWhile_dropWhile_id [of is_word_char r2] b r2 by simp
  have 1: "take (length (h @ CHR '' '' # y)) s = h @ CHR '' '' # y"
    by (subst s) simp
  have 2: "drop (length (h @ CHR '' '' # y)) s = dropWhile is_word_char r2"
    by (subst s) simp
  have 3: "s \<noteq> [] \<and> is_word_char (hd s)"
    using 1 assms(1,2) by (cases s; cases h) auto
  have 4: "\<not> prev_word (first_char (dropWhile is_word_char r2))"
    by (rule not_prev_word_dropWhile)
  have "is_word_char (last y)" using assms(3,4) by simp
  then show "take (length (h @ CHR '' '' # y)) s = h @ CHR '' '' # y \<and>
          word_boundary prev (first_char s) \<and>
          word_boundary (Some (last (h @ CHR '' '' # y)))
            (first_char (drop (length (h @ CHR '' '' # y)) s))"
    using 1 2 3 4 assms(3,5)
    by (simp add: word_boundary_prev_word prev_word_first_char)
qed

lemma match_filler_word_start:
  assumes "\<not> prev_word prev"
  shows "match_filler prev s =
     (if takeWhile is_word_char s \<in> set [''please'', ''kindly'', ''thanks'']
      then Some (takeWhile is_word_char s)
      else if takeWhile is_word_char s \<in> set [''can'', ''could'', ''would'', ''thank''] \<and>
              (\<exists>r2. dropWhile is_word_char s = CHR '' '' # r2 \<and>
                    takeWhile is_word_char r2 = ''you'')
      then Some (takeWhile is_word_char s @ '' you'')
      else None)"
proof -
  let ?E = "\<exists>r2. dropWhile is_word_char s = CHR '' '' # r2 \<and> takeWhile is_word_char r2 = ''you''"
  have single: "(take (length f) s = f \<and> word_boundary prev (first_char s) \<and>
          word_boundary (Some (last f)) (first_char (drop (length f) s))) =
         (takeWhile is_word_char s = f)"
    if "f \<in> set [''please'', ''kindly'', ''thanks'']" for f
    using that by (intro single_match assms) (auto simp: is_word_char_def)
  have double: "(take (length (h @ '' you'')) s = h @ '' you'' \<and>
          word_boundary prev (first_char s) \<and>
          word_boundary (Some (last (h @ '' you'')))
            (first_char (drop (length (h @ '' you'')) s))) =
         (takeWhile is_word_char s = h \<and> ?E)"
    if "h \<in> set [''can'', ''could'', ''would'', ''thank'']" for h
    using that double_match [of h "''you''" prev s] assms
    by (auto simp: is_word_char_def)
  note s1 = single [of "''please''", simplified] single [of "''kindly''", simplified]
    single [of "''thanks''", simplified]
  note d1 = double [of "''can''", simplified] double [of "''could''", simplified]
    double [of "''would''", simplified] double [of "''thank''", simplified]
  show ?thesis
    unfolding match_filler_def fillers_def
    by (simp add: s1 d1)
qed

lemma pieces_word:
  "s \<noteq> [] \<Longrightarrow> is_word_char (hd s) \<Longrightarrow>
   pieces s = takeWhile is_word_char s # pieces (dropWhile is_word_char s)"
  by (cases s) simp_all

lemma takeWhile_word_Nil:
  "takeWhile is_word_char s = [] \<longleftrightarrow> (s = [] \<or> \<not> is_word_char (hd s))"
  by (cases s) simp_all

lemma pieces_space_you:
  "take 2 (pieces r) = ['' '', ''you''] \<longleftrightarrow>
   (\<exists>r2. r = CHR '' '' # r2 \<and> takeWhile is_word_char r2 = ''you'')"
proof
  assume a: "take 2 (pieces r) = ['' '', ''you'']"
  show "\<exists>r2. r = CHR '' '' # r2 \<and> takeWhile is_word_char r2 = ''you''"
  proof (cases r)
    case Nil
    then show ?thesis using a by simp
  next
    case (Cons c cs)
    have nw: "\<not> is_word_char c"
    proof
      assume "is_word_char c"
      then have "c = CHR '' ''" using a by (simp add: Cons)
      then show False using \<open>is_word_char c\<close> filler_word_chars(6) by simp
    qed
    then have c: "c = CHR '' ''" and t: "take 1 (pieces cs) = [''you'']"
      using a by (simp_all add: Cons)
    have "takeWhile is_word_char cs = ''you''"
    proof (cases cs)
      case Nil
      then show ?thesis using t by simp
    next
      case (Cons d ds)
      show ?thesis
      proof (cases "is_word_char d")
        case True
        then show ?thesis using t by (simp add: Cons)
      next
        case False
        then show ?thesis using t by (simp add: Cons)
      qed
    qed
    then show ?thesis using c Cons by simp
  qed
next
  assume "\<exists>r2. r = CHR '' '' # r2 \<and> takeWhile is_word_char r2 = ''you''"
  then obtain r2 where r: "r = CHR '' '' # r2" and y: "takeWhile is_word_char r2 = ''you''"
    by blast
  have "r2 \<noteq> [] \<and> is_word_char (hd r2)"
    using y takeWhile_word_Nil [of r2] by auto
  then have "pieces r2 = ''you'' # pieces (dropWhile is_word_char r2)"
    using pieces_word [of r2] y by simp
  then show "take 2 (pieces r) = ['' '', ''you'']"
    using filler_word_chars(6) by (simp add: r)
qed

lemma drop_takeWhile: "drop (length (takeWhile P xs)) xs = dropWhile P xs"
  by (induction xs) simp_all

lemma split_two_words:
  fixes cs r r2 r3 tw :: string
  assumes r21: "r = CHR '' '' # r2" and r2': "r2 = ''you'' @ r3" and t: "tw @ r = cs"
  shows "cs = (tw @ '' you'') @ r3"
proof -
  have rr: "r = '' you'' @ r3"
    by (subst r21, subst r2', simp)
  show ?thesis
    by (subst t [symmetric], subst rr, simp)
qed

lemma drop_two_words:
  fixes cs r3 tw :: string
  assumes cs': "cs = (tw @ '' you'') @ r3"
  shows "drop (length (tw @ '' you'')) cs = r3"
proof -
  have "drop (length a) (a @ r3) = r3" for a :: string
    by simp
  from this [of "tw @ '' you''"] show ?thesis
    by (subst cs')
qed

text \<open>Seen as a deletion of pieces, the replacement removes a word that is one of
  \<open>please\<close>, \<open>kindly\<close>, \<open>thanks\<close>, and a word that is one of \<open>can\<close>, \<open>could\<close>,
  \<open>would\<close>, \<open>thank\<close> together with one space and the word \<open>you\<close> behind it.\<close>

lemma strip_fillers_pieces_aux:
  "(prev_word prev \<longrightarrow> \<not> prev_word (first_char s)) \<Longrightarrow>
   strip_fillers prev s = concat (remove_fillers (pieces s))"
proof (induction "length s" arbitrary: s prev rule: less_induct)
  case less
  show ?case
  proof (cases s)
    case Nil
    then show ?thesis by simp
  next
    case (Cons c cs)
    show ?thesis
    proof (cases "is_word_char c")
      case False
      have m: "match_filler prev (c # cs) = None"
        using False by (rule match_filler_non_word)
      have ih: "strip_fillers (Some c) cs = concat (remove_fillers (pieces cs))"
        using less.hyps [of cs "Some c"] False by (simp add: Cons)
      have "[c] \<notin> set [''please'', ''kindly'', ''thanks''] \<and>
            [c] \<notin> set [''can'', ''could'', ''would'', ''thank'']"
        by simp
      then show ?thesis
        using m ih False by (simp add: Cons)
    next
      case True
      define w where "w = takeWhile is_word_char s"
      define r where "r = dropWhile is_word_char s"
      have w: "w = c # takeWhile is_word_char cs" and r: "r = dropWhile is_word_char cs"
        using True by (simp_all add: w_def r_def Cons)
      have np: "\<not> prev_word prev"
        using less.prems True by (auto simp: Cons prev_word_first_char)
      have pc: "pieces s = w # pieces r"
        using True by (simp add: Cons w r)
      have lr: "length r < length s"
        using length_dropWhile_le [of is_word_char cs] by (simp add: r Cons)
      have ih_r: "strip_fillers (Some (last w)) r = concat (remove_fillers (pieces r))"
        using less.hyps [OF lr, of "Some (last w)"] not_prev_word_dropWhile [of s]
        by (simp add: r_def)
      note m = match_filler_word_start [OF np, of s, folded w_def r_def]
      consider (single) "w \<in> set [''please'', ''kindly'', ''thanks'']"
        | (double) "w \<notin> set [''please'', ''kindly'', ''thanks'']"
            "w \<in> set [''can'', ''could'', ''would'', ''thank'']"
            "\<exists>r2. r = CHR '' '' # r2 \<and> takeWhile is_word_char r2 = ''you''"
        | (none) "w \<notin> set [''please'', ''kindly'', ''thanks'']"
            "\<not> (w \<in> set [''can'', ''could'', ''would'', ''thank''] \<and>
                (\<exists>r2. r = CHR '' '' # r2 \<and> takeWhile is_word_char r2 = ''you''))"
        by blast
      then show ?thesis
      proof cases
        case single
        have "match_filler prev (c # cs) = Some w"
          using m single by (simp only: Cons if_True)
        moreover have "drop (length w - 1) cs = r"
          by (simp add: w r drop_takeWhile)
        ultimately have "strip_fillers prev s = strip_fillers (Some (last w)) r"
          by (simp add: Cons)
        moreover have "remove_fillers (pieces s) = remove_fillers (pieces r)"
          using single by (simp only: pc remove_fillers.simps if_True)
        ultimately show ?thesis using ih_r by simp
      next
        case double
        obtain r2 where r2: "r = CHR '' '' # r2" "takeWhile is_word_char r2 = ''you''"
          using double(3) by blast
        define r3 where "r3 = dropWhile is_word_char r2"
        have r2': "r2 = ''you'' @ r3"
          using takeWhile_dropWhile_id [of is_word_char r2] r2(2) by (simp add: r3_def)
        have mm: "match_filler prev (c # cs) = Some (w @ '' you'')"
          using m double by (simp only: Cons if_True if_False simp_thms)
        define tw where "tw = takeWhile is_word_char cs"
        have twr: "tw @ r = cs"
          unfolding tw_def r by (rule takeWhile_dropWhile_id)
        have cs': "cs = (tw @ '' you'') @ r3"
          by (rule split_two_words [OF r2(1) r2' twr])
        have len: "length (w @ '' you'') - 1 = length (tw @ '' you'')"
          unfolding w tw_def by simp
        have dr: "drop (length (w @ '' you'') - 1) cs = r3"
          unfolding len by (rule drop_two_words [OF cs'])
        have lw: "last (w @ '' you'') = CHR ''u''"
          by simp
        have run: "strip_fillers prev s = strip_fillers (Some CHR ''u'') r3"
          using mm dr lw by (simp add: Cons del: last_append)
        have l3: "length r3 < length s"
          using lr r2(1) length_dropWhile_le [of is_word_char r2] by (simp add: r3_def)
        have ih3: "strip_fillers (Some CHR ''u'') r3 = concat (remove_fillers (pieces r3))"
          using less.hyps [OF l3, of "Some CHR ''u''"] not_prev_word_dropWhile [of r2]
          by (simp add: r3_def)
        have t2: "take 2 (pieces r) = ['' '', ''you'']"
          using double(3) by (simp only: pieces_space_you)
        have "r2 \<noteq> [] \<and> is_word_char (hd r2)"
          using r2(2) takeWhile_word_Nil [of r2] by auto
        then have "pieces r2 = ''you'' # pieces r3"
          using pieces_word [of r2] r2(2) by (simp add: r3_def)
        then have d2: "drop 2 (pieces r) = pieces r3"
          using filler_word_chars(6) by (simp add: r2(1))
        have "remove_fillers (pieces s) = remove_fillers (pieces r3)"
          using double(1,2) t2 d2 by (simp only: pc remove_fillers.simps if_True if_False simp_thms)
        then show ?thesis using run ih3 by simp
      next
        case none
        have mm: "match_filler prev (c # cs) = None"
          using m none by (simp only: Cons if_False)
        have "strip_fillers (Some c) cs =
            takeWhile is_word_char cs @
            strip_fillers (Some (last (c # takeWhile is_word_char cs))) r"
        proof -
          have "\<forall>x\<in>set (takeWhile is_word_char cs). is_word_char x"
            by (auto dest: set_takeWhileD)
          then show ?thesis
            using strip_fillers_inside [of c "takeWhile is_word_char cs" r] True
            by (simp add: r)
        qed
        then have run: "strip_fillers prev s = w @ strip_fillers (Some (last w)) r"
          using mm by (simp add: Cons w)
        have "\<not> (w \<in> set [''can'', ''could'', ''would'', ''thank''] \<and>
                 take 2 (pieces r) = ['' '', ''you''])"
          using none(2) by (simp only: pieces_space_you simp_thms)
        then have "remove_fillers (pieces s) = w # remove_fillers (pieces r)"
          using none(1) by (simp only: pc remove_fillers.simps if_False)
        then show ?thesis using run ih_r by simp
      qed
    qed
  qed
qed

lemma strip_fillers_pieces: "strip_fillers None s = concat (remove_fillers (pieces s))"
  by (rule strip_fillers_pieces_aux) (simp add: prev_word_def)

lemma lower_case_letter_or_digit:
  "c \<in> set ''abcdefghijklmnopqrstuvwxyz0123456789'' \<longleftrightarrow>
   (97 \<le> (of_char c :: nat) \<and> (of_char c :: nat) \<le> 122) \<or>
   (48 \<le> (of_char c :: nat) \<and> (of_char c :: nat) \<le> 57)"
proof -
  have n: "(c = d) = ((of_char c :: nat) = of_char d)" for d
    by simp
  show ?thesis
    unfolding list.set insert_iff empty_iff n
    by simp arith
qed

lemma upper_case_letter:
  "c \<in> set ''ABCDEFGHIJKLMNOPQRSTUVWXYZ'' \<longleftrightarrow>
   65 \<le> (of_char c :: nat) \<and> (of_char c :: nat) \<le> 90"
proof -
  have n: "(c = d) = ((of_char c :: nat) = of_char d)" for d
    by simp
  show ?thesis
    unfolding list.set insert_iff empty_iff n
    by simp arith
qed

lemma keep_query_char_class:
  "keep_query_char c =
     (if c \<in> set ''abcdefghijklmnopqrstuvwxyz0123456789'' \<or> c = CHR ''-'' \<or>
         c \<in> set [CHR 0x09, CHR 0x0A, CHR 0x0B, CHR 0x0C, CHR 0x0D, CHR 0x20, CHR 0xA0]
      then c else CHR '' '')"
  unfolding lower_case_letter_or_digit
  by (auto simp: keep_query_char_def is_space_def Let_def)

lemma toLowerCase_class:
  "toLowerCase txt =
     map (\<lambda>c. if c \<in> set ''ABCDEFGHIJKLMNOPQRSTUVWXYZ'' \<or>
                  (192 \<le> (of_char c :: nat) \<and> (of_char c :: nat) \<le> 222 \<and>
                   (of_char c :: nat) \<noteq> 215)
               then char_of (of_char c + (32 :: nat)) else c) txt"
  unfolding upper_case_letter
  by (simp add: toLowerCase_def toLowerCase_char_def Let_def)

text \<open>
  Claim C9. For every user text, the reformulated query is obtained by lower-casing,
  removing the filler phrases, replacing every character other than a lower-case letter,
  a digit, whitespace or a hyphen by a space, and joining at most the first ten
  whitespace-separated tokens of the result by single spaces (which is what collapsing,
  trimming, splitting at spaces, slicing and joining compute). A filler phrase is removed
  where it stands as whole words: the word \<open>please\<close>, \<open>kindly\<close> or \<open>thanks\<close>, and the
  word \<open>can\<close>, \<open>could\<close>, \<open>would\<close> or \<open>thank\<close> with one space and the word \<open>you\<close>
  behind it, a word being a maximal run of letters, digits and underscores. In particular
  "please tell me about RAG" is reformulated to "tell me about rag".
\<close>

theorem rewriteQueryForRetrieval_tokens:
  "rewriteQueryForRetrieval txt =
     join_with CHR '' ''
       (take 10 (ws_tokens
          (map (\<lambda>c. if c \<in> set ''abcdefghijklmnopqrstuvwxyz0123456789'' \<or> c = CHR ''-'' \<or>
                       c \<in> set [CHR 0x09, CHR 0x0A, CHR 0x0B, CHR 0x0C, CHR 0x0D, CHR 0x20,
                                 CHR 0xA0]
                    then c else CHR '' '')
             (concat (remove_fillers (pieces
                (map (\<lambda>c. if c \<in> set ''ABCDEFGHIJKLMNOPQRSTUVWXYZ'' \<or>
                               (192 \<le> (of_char c :: nat) \<and> (of_char c :: nat) \<le> 222 \<and>
                                (of_char c :: nat) \<noteq> 215)
                            then char_of (of_char c + (32 :: nat)) else c) txt))))))) \<and>
   rewriteQueryForRetrieval ''please tell me about RAG'' = ''tell me about rag'' \<and>
   rewriteQueryForRetrieval ''Kindly explain, could you, the A/B test results? Thanks!'' =
     ''explain the a b test results'' \<and>
   rewriteQueryForRetrieval ''can you would you thank you show state-of-the-art models'' =
     ''show state-of-the-art models'' \<and>
   rewriteQueryForRetrieval ''pleased thankss scan you canyou kindly2 please_note'' =
     ''pleased thankss scan you canyou kindly2 please note'' \<and>
   rewriteQueryForRetrieval ''can  you help'' = ''can you help'' \<and>
   rewriteQueryForRetrieval
       ''one two three four five six seven eight nine ten eleven twelve'' =
     ''one two three four five six seven eight nine ten'' \<and>
   rewriteQueryForRetrieval ''Please, thanks!'' = '''' \<and>
   rewriteQueryForRetrieval ''what is 2+2=4? e-mail: a.b@c.d'' =
     ''what is 2 2 4 e-mail a b c d'' \<and>
   rewriteQueryForRetrieval (''a'' @ [CHR 0x09, CHR 0x0A] @ ''b'') = ''a b''"
proof (intro conjI)
  have k: "keep_query_char =
      (\<lambda>c. if c \<in> set ''abcdefghijklmnopqrstuvwxyz0123456789'' \<or> c = CHR ''-'' \<or>
                       c \<in> set [CHR 0x09, CHR 0x0A, CHR 0x0B, CHR 0x0C, CHR 0x0D, CHR 0x20,
                                 CHR 0xA0]
                    then c else CHR '' '')"
    by (rule ext) (rule keep_query_char_class)
  have "\<forall>w\<in>set (ws_tokens (query_cleaned txt)). CHR '' '' \<notin> set w"
    using ws_tokens_no_space is_space_SP by blast
  then have g: "rewriteQueryForRetrieval txt =
     join_with CHR '' ''
       (take 10 (ws_tokens (map keep_query_char (strip_fillers None (toLowerCase txt)))))"
    by (simp add: rewriteQueryForRetrieval_def trim_collapse_ws join_take_split_join
        query_cleaned_def [symmetric])
  show "rewriteQueryForRetrieval txt =
     join_with CHR '' ''
       (take 10 (ws_tokens
          (map (\<lambda>c. if c \<in> set ''abcdefghijklmnopqrstuvwxyz0123456789'' \<or> c = CHR ''-'' \<or>
                       c \<in> set [CHR 0x09, CHR 0x0A, CHR 0x0B, CHR 0x0C, CHR 0x0D, CHR 0x20,
                                 CHR 0xA0]
                    then c else CHR '' '')
             (concat (remove_fillers (pieces
                (map (\<lambda>c. if c \<in> set ''ABCDEFGHIJKLMNOPQRSTUVWXYZ'' \<or>
                               (192 \<le> (of_char c :: nat) \<and> (of_char c :: nat) \<le> 222 \<and>
                                (of_char c :: nat) \<noteq> 215)
                            then char_of (of_char c + (32 :: nat)) else c) txt)))))))"
    unfolding g strip_fillers_pieces
    by (subst k, subst toLowerCase_class, rule refl)
next
  show "rewriteQueryForRetrieval ''please tell me about RAG'' = ''tell me about rag''"
    by code_simp
next
  show "rewriteQueryForRetrieval ''Kindly explain, could you, the A/B test results? Thanks!'' =
     ''explain the a b test results''"
    by code_simp
next
  show "rewriteQueryForRetrieval ''can you would you thank you show state-of-the-art models'' =
     ''show state-of-the-art models''"
    by code_simp
next
  show "rewriteQueryForRetrieval ''pleased thankss scan you canyou kindly2 please_note'' =
     ''pleased thankss scan you canyou kindly2 please note''"
    by code_simp
next
  show "rewriteQueryForRetrieval ''can  you help'' = ''can you help''"
    by code_simp
next
  show "rewriteQueryForRetrieval
       ''one two three four five six seven eight nine ten eleven twelve'' =
     ''one two three four five six seven eight nine ten''"
    by code_simp
next
  show "rewriteQueryForRetrieval ''Please, thanks!'' = ''''"
    by code_simp
next
  show "rewriteQueryForRetrieval ''what is 2+2=4? e-mail: a.b@c.d'' =
     ''what is 2 2 4 e-mail a b c d''"
    by code_simp
next
  show "rewriteQueryForRetrieval (''a'' @ [CHR 0x09, CHR 0x0A] @ ''b'') = ''a b''"
    by code_simp
qed

section \<open>The timeline store\<close>

lemma appendStep_own:
  "cur k = Some p \<Longrightarrow>
   appendStep k st cur = Inr (cur(k \<mapsto> p\<lparr>mcp_steps := mcp_steps p @ [st]\<rparr>))"
  by (simp add: appendStep_def absent_def)

lemma appendStep_absent:
  "absent cur k \<Longrightarrow>
   appendStep k st cur = Inr (cur(k \<mapsto> \<lparr>mcp_turnId = k, mcp_steps = [st]\<rparr>))"
  by (simp add: appendStep_def addProtocol_def)

lemma appendStep_inherited:
  "cur k = None \<Longrightarrow> inherited_property k \<Longrightarrow> appendStep k st cur = Inl TypeError"
  by (simp add: appendStep_def absent_def)

text \<open>For a turn identifier that is not the name of an inherited property, \<open>appendStep\<close>
  does what its documentation says: the timeline is created if it is missing, the step is
  added at its end, the steps before it keep their places, and no other timeline changes.\<close>

lemma appendStep_extends:
  assumes "\<not> inherited_property k"
  shows "\<exists>cur'. appendStep k st cur = Inr cur' \<and>
           protocol_steps cur' k = protocol_steps cur k @ [st] \<and>
           (\<forall>k'. k' \<noteq> k \<longrightarrow> cur' k' = cur k')"
proof (cases "cur k")
  case None
  then have "absent cur k" using assms by (simp add: absent_def)
  then show ?thesis using None by (simp add: appendStep_absent protocol_steps_def)
next
  case (Some p)
  then show ?thesis by (simp add: appendStep_own protocol_steps_def)
qed

lemma inherited_constructor: "inherited_property ''constructor''"
  by (simp add: inherited_property_def object_prototype_names_def)

text \<open>
  Claim C6. For every turn identifier and step, \<open>appendStep\<close> creates the timeline if it
  is missing and extends it by that step. The code does so for every identifier but the
  names every object inherits (lemma \<open>appendStep_extends\<close>). For such a name, here
  \<open>constructor\<close> on the empty store, \<open>curr[turnId]\<close> is the inherited value: no timeline is
  created, and the call raises a \<open>TypeError\<close> instead of recording the step.
\<close>

theorem appendStep_constructor_raises:
  "appendStep ''constructor'' st Map.empty = Inl TypeError"
  by (simp add: appendStep_inherited inherited_constructor)

lemma addProtocol_idem: "addProtocol k (addProtocol k cur) = addProtocol k cur"
  by (simp add: addProtocol_def absent_def)

lemma addProtocol_present: "cur k = Some p \<Longrightarrow> addProtocol k cur = cur"
  by (simp add: addProtocol_def absent_def)

lemma addProtocol_other: "k' \<noteq> k \<Longrightarrow> addProtocol k cur k' = cur k'"
  by (simp add: addProtocol_def)

text \<open>For a turn identifier that is not the name of an inherited property and has no
  timeline, one call of \<open>addProtocol\<close>, and so two, leave exactly the empty timeline.\<close>

lemma addProtocol_creates:
  "cur k = None \<Longrightarrow> \<not> inherited_property k \<Longrightarrow>
   addProtocol k (addProtocol k cur) k = Some \<lparr>mcp_turnId = k, mcp_steps = []\<rparr>"
  by (simp add: addProtocol_def absent_def)

text \<open>
  Claim C7. \<open>addProtocol\<close> is idempotent, leaves an existing timeline and all other
  timelines as they are (lemmas \<open>addProtocol_idem\<close>, \<open>addProtocol_present\<close>,
  \<open>addProtocol_other\<close>), and creates the empty timeline of an identifier that has none
  (lemma \<open>addProtocol_creates\<close>), unless the identifier is the name of an inherited
  property: called twice with \<open>constructor\<close> on the empty store, it creates no timeline.
\<close>

theorem addProtocol_constructor_creates_nothing:
  "addProtocol ''constructor'' (addProtocol ''constructor'' Map.empty) ''constructor'' = None"
  by (simp add: addProtocol_def absent_def inherited_constructor)

section \<open>Retrieval\<close>

lemma dedup_filter_keys:
  "distinct (map chunk_key (dedup_filter seen cs)) \<and>
   set (map chunk_key (dedup_filter seen cs)) \<inter> seen = {}"
  by (induction cs arbitrary: seen) (auto simp: Let_def)

lemma dedup_filter_id:
  "distinct (map chunk_key cs) \<Longrightarrow> set (map chunk_key cs) \<inter> seen = {} \<Longrightarrow>
   dedup_filter seen cs = cs"
  by (induction cs arbitrary: seen) (auto simp: Let_def)

lemma distinct_map_sort_key:
  "distinct (map f (sort_key g xs)) = distinct (map f xs)"
proof -
  have "mset (map f (sort_key g xs)) = mset (map f xs)" by simp
  then show ?thesis by (rule mset_eq_imp_distinct_iff)
qed

lemma distinct_map_take: "distinct (map f xs) \<Longrightarrow> distinct (map f (take n xs))"
  by (simp add: take_map [symmetric] distinct_take del: take_map)

lemma sorted_desc_sort_key:
  "sorted_wrt (\<lambda>a b. score_or_zero b \<le> score_or_zero a)
     (take n (sort_key (\<lambda>c. - score_or_zero c) cs))"
proof -
  have "sorted (map (\<lambda>c. - score_or_zero c) (sort_key (\<lambda>c. - score_or_zero c) cs))"
    by (rule sorted_sort_key)
  then have "sorted_wrt (\<lambda>a b. score_or_zero b \<le> score_or_zero a)
               (sort_key (\<lambda>c. - score_or_zero c) cs)"
    by (simp add: sorted_map)
  then show ?thesis by (rule sorted_wrt_take)
qed

text \<open>Whatever the raw list, its deduplicated and ranked form has pairwise different keys,
  descends in score and has at most five elements.\<close>

lemma dedup_rank_props:
  "distinct (map chunk_key (dedup_rank raw)) \<and>
   sorted_wrt (\<lambda>a b. score_or_zero b \<le> score_or_zero a) (dedup_rank raw) \<and>
   length (dedup_rank raw) \<le> 5"
  unfolding dedup_rank_def
  using dedup_filter_keys [of "{}" raw]
  by (simp add: distinct_map_take distinct_map_sort_key sorted_desc_sort_key)

lemma upt_4: "[0..<4] = [0, 1, 2, Suc 2]"
  by (simp add: upt_rec)

lemma mockRag_keys:
  "map chunk_key (fst (mockRag e q w)) =
     [''rag overview'', ''agent collaboration'', ''context windows'', ''answer quality'']"
  by (simp add: mockRag_def base_corpus_def uuid_def Let_def split_def echo_chunk_def
      chunk_key_def toLowerCase_def toLowerCase_char_def char_of_eq_iff upt_4)

lemma mockRag_length: "length (fst (mockRag e q w)) = 4"
  using arg_cong [OF mockRag_keys, of length] by simp

text \<open>
  Claim C1. For every query (and every environment and state), the chunks the retrieval
  step returns have pairwise different lower-cased title-or-source keys, are sorted by
  descending score with a missing score counted as 0, and are at most five. The corpus has
  four chunks with four different keys, so every chunk \<open>mockRag\<close> lists is kept by the
  deduplication, and none is cut off.
\<close>

theorem retrieve_unique_ranked_top5:
  "distinct (map chunk_key (retrieve e q w)) \<and>
   sorted_wrt (\<lambda>a b. score_or_zero a \<ge> score_or_zero b) (retrieve e q w) \<and>
   length (retrieve e q w) \<le> 5 \<and>
   mset (retrieve e q w) = mset (fst (mockRag e q w))"
proof -
  have "distinct (map chunk_key (fst (mockRag e q w)))"
    unfolding mockRag_keys by simp
  then have "dedup_filter {} (fst (mockRag e q w)) = fst (mockRag e q w)"
    by (simp add: dedup_filter_id)
  then have "mset (retrieve e q w) = mset (fst (mockRag e q w))"
    by (simp add: retrieve_def dedup_rank_def mockRag_length)
  then show ?thesis
    using dedup_rank_props [of "fst (mockRag e q w)"] by (simp add: retrieve_def)
qed

section \<open>Context packing and token accounting\<close>

text \<open>
  Claim C4. For every user text and evidence list (the system prompt is the constant of
  the source), the packed context window has 2 + min(3, number of chunks) items: one
  \<open>system\<close> item, one \<open>history\<close> item, and then the retrieval items of the first three
  chunks, in their order.
\<close>

theorem pack_items_shape:
  "length (pack_items i j safeContent chunks) = 2 + min 3 (length chunks) \<and>
   map item_type (pack_items i j safeContent chunks) =
     ''system'' # ''history'' # replicate (min 3 (length chunks)) ''retrieval'' \<and>
   item_text (hd (pack_items i j safeContent chunks)) = system_prompt \<and>
   drop 2 (pack_items i j safeContent chunks) = map retrieval_item (take 3 chunks)"
  by (simp add: pack_items_def retrieval_item_def comp_def map_replicate_const min.commute)

lemma promptTokens_sum:
  "promptTokens items =
     sum_list (map (\<lambda>it. case item_tokens it of None \<Rightarrow> 50 | Some t \<Rightarrow> t) items)"
proof -
  have "fold (\<lambda>it acc. acc + (case item_tokens it of None \<Rightarrow> 50 | Some t \<Rightarrow> t)) items a =
          a + sum_list (map (\<lambda>it. case item_tokens it of None \<Rightarrow> 50 | Some t \<Rightarrow> t) items)" for a
    by (induction items arbitrary: a) simp_all
  then show ?thesis by (simp add: promptTokens_def)
qed

lemma pack_items_tokens:
  "map item_tokens (pack_items i j safeContent chunks) =
     Some 16 # Some (min (24 + length safeContent div 3) 256)
       # map (\<lambda>ch. Some (min (60 + length (chunk_snippet ch) div 4) 200)) (take 3 chunks)"
  by (simp add: pack_items_def retrieval_item_def comp_def)

section \<open>Finite numbers\<close>









section \<open>The turn pipeline\<close>

subsection \<open>Each stage appends its step\<close>

lemma has_timeline_Some:
  "has_timeline w k xs \<longleftrightarrow> (\<exists>p. protocols w k = Some p \<and> mcp_steps p = xs)"
  by (cases "protocols w k") (simp_all add: has_timeline_def)

lemma mcp_appendStep_timeline:
  assumes "has_timeline w k xs"
  shows "\<exists>w'. mcp_appendStep k st w = Inr w' \<and> has_timeline w' k (xs @ [st]) \<and>
        conversations w' = conversations w \<and> uuid_calls w' = uuid_calls w"
proof -
  obtain p where p: "protocols w k = Some p" "mcp_steps p = xs"
    using assms by (auto simp: has_timeline_Some)
  have "mcp_appendStep k st w =
          Inr (w\<lparr>protocols := (protocols w)(k \<mapsto> p\<lparr>mcp_steps := mcp_steps p @ [st]\<rparr>)\<rparr>)"
    using p by (simp add: mcp_appendStep_def appendStep_def absent_def)
  then show ?thesis using p by (simp add: has_timeline_def)
qed

lemma has_timeline_setAgentState [simp]:
  "has_timeline (setAgentState a st n w) k xs = has_timeline w k xs"
  by (simp add: has_timeline_def setAgentState_def)

lemma has_timeline_uuid [simp]:
  "has_timeline (snd (uuid e w)) k xs = has_timeline w k xs"
  by (simp add: has_timeline_def uuid_def)

lemma has_timeline_pushMessage [simp]:
  "has_timeline (pushMessage c m w) k xs = has_timeline w k xs"
  by (simp add: has_timeline_def pushMessage_def)

lemma conversations_setAgentState [simp]:
  "conversations (setAgentState a st n w) = conversations w"
  by (simp add: setAgentState_def)

lemma uuid_calls_setAgentState [simp]:
  "uuid_calls (setAgentState a st n w) = uuid_calls w"
  by (simp add: setAgentState_def)

lemma conversations_uuid [simp]: "conversations (snd (uuid e w)) = conversations w"
  by (simp add: uuid_def)

lemma uuid_calls_uuid [simp]: "uuid_calls (snd (uuid e w)) = Suc (uuid_calls w)"
  by (simp add: uuid_def)

lemma fst_uuid [simp]: "fst (uuid e w) = uuid_stream e (uuid_calls w)"
  by (simp add: uuid_def)

lemma uuid_calls_pushMessage [simp]: "uuid_calls (pushMessage c m w) = uuid_calls w"
  by (simp add: pushMessage_def)

lemma mock_plan_ok:
  assumes "has_timeline w k xs"
  shows "\<exists>w'. mock_plan e sc rf k w = Inr w' \<and>
           has_timeline w' k (xs @ [local_plan_step (uuid_stream e (uuid_calls w)) sc rf]) \<and>
           conversations w' = conversations w \<and> uuid_calls w' = Suc (uuid_calls w)"
  using mcp_appendStep_timeline [of "snd (uuid e (setAgentState ''planner'' Thinking
          (Some (''Analyzing task'' @ [ellipsis])) w))" k xs] assms
  by (simp add: mock_plan_def Let_def split_def)

lemma mock_route_ok:
  assumes "has_timeline w k xs"
  shows "\<exists>w'. mock_route e k w = Inr w' \<and>
           has_timeline w' k (xs @ [route_step (uuid_stream e (uuid_calls w))]) \<and>
           conversations w' = conversations w \<and> uuid_calls w' = Suc (uuid_calls w)"
  using mcp_appendStep_timeline [of "snd (uuid e (setAgentState ''planner'' Retrieving
          (Some (''Scoping and delegating'' @ [ellipsis])) w))" k xs] assms
  by (simp add: mock_route_def Let_def split_def)


lemma base_chunks_world:
  "has_timeline (snd (base_chunks e l w)) k xs = has_timeline w k xs \<and>
   conversations (snd (base_chunks e l w)) = conversations w \<and>
   uuid_calls (snd (base_chunks e l w)) = uuid_calls w + length l"
proof (induction l arbitrary: w)
  case Nil
  show ?case by simp
next
  case (Cons a l)
  obtain src title snippet score where a: "a = (src, title, snippet, score)"
    by (cases a) auto
  show ?case
    using Cons [of "snd (uuid e w)"] by (simp add: a Let_def split_def)
qed

lemma mockRag_world:
  "has_timeline (snd (mockRag e q w)) k xs = has_timeline w k xs \<and>
   conversations (snd (mockRag e q w)) = conversations w \<and>
   uuid_calls (snd (mockRag e q w)) = uuid_calls w + 4"
  using base_chunks_world [of e base_corpus w k xs]
  by (simp add: mockRag_def Let_def split_def) (simp add: base_corpus_def)

lemma mock_retrieve_ok:
  fixes sc rf :: string
  assumes "has_timeline w k xs"
  defines "q \<equiv> (if rf \<noteq> [] then rf else sc)"
  shows "\<exists>w' w0. mock_retrieve e sc rf k w =
             Inr (\<lparr>rag_query = q, rag_chunks = retrieve e q w0\<rparr>, w') \<and>
           has_timeline w' k
             (xs @ [retrieve_step (uuid_stream e (uuid_calls w + 4)) q (retrieve e q w0)]) \<and>
           conversations w' = conversations w \<and> uuid_calls w' = uuid_calls w + 5"
proof -
  define w1 where "w1 = setAgentState ''researcher'' Retrieving
                         (Some (''Searching knowledge base'' @ [ellipsis])) w"
  define w3 where "w3 = snd (uuid e (snd (mockRag e q w1)))"
  have tl: "has_timeline w3 k xs"
    using assms(1) mockRag_world [of e q w1 k xs] by (simp add: w3_def w1_def)
  have w3: "conversations w3 = conversations w" "uuid_calls w3 = uuid_calls w + 5"
    using mockRag_world [of e q w1 k xs] by (simp_all add: w3_def w1_def)
  obtain w' where w': "mcp_appendStep k
        (retrieve_step (uuid_stream e (uuid_calls w + 4)) q (retrieve e q w1)) w3 = Inr w'"
      "has_timeline w' k
         (xs @ [retrieve_step (uuid_stream e (uuid_calls w + 4)) q (retrieve e q w1)])"
      "conversations w' = conversations w3" "uuid_calls w' = uuid_calls w3"
    using mcp_appendStep_timeline [OF tl] by blast
  have calls: "uuid_calls (snd (mockRag e q w1)) = uuid_calls w + 4"
    using mockRag_world [of e q w1 k xs] by (simp add: w1_def)
  have "mock_retrieve e sc rf k w =
          and_then (mcp_appendStep k
             (retrieve_step (uuid_stream e (uuid_calls w + 4)) q (retrieve e q w1)) w3)
            (\<lambda>w4. Inr (\<lparr>rag_query = q, rag_chunks = retrieve e q w1\<rparr>, w4))"
    unfolding mock_retrieve_def Let_def split_def retrieve_def w3_def w1_def [symmetric]
      q_def [symmetric]
    by (simp add: calls)
  then have "mock_retrieve e sc rf k w =
      Inr (\<lparr>rag_query = q, rag_chunks = retrieve e q w1\<rparr>, w')"
    by (simp add: w'(1) and_then_def)
  then show ?thesis using w' w3 by auto
qed

lemma mock_pack_ok:
  fixes sc :: string and rag :: rag_context and e :: env and w :: world
  assumes "has_timeline w k xs"
  defines "items \<equiv> pack_items (uuid_stream e (uuid_calls w)) (uuid_stream e (uuid_calls w + 1))
                     sc (rag_chunks rag)"
  shows "\<exists>w'. mock_pack e sc k rag w = Inr (items, w') \<and>
           has_timeline w' k (xs @ [pack_step (uuid_stream e (uuid_calls w + 2)) items]) \<and>
           conversations w' = conversations w \<and> uuid_calls w' = uuid_calls w + 3"
proof -
  define w4 where "w4 = snd (uuid e (snd (uuid e (snd (uuid e
      (setAgentState ''researcher'' Responding
         (Some (''Ranking and summarizing'' @ [ellipsis])) w))))))"
  have tl: "has_timeline w4 k xs" using assms(1) by (simp add: w4_def)
  obtain w' where w': "mcp_appendStep k (pack_step (uuid_stream e (uuid_calls w + 2)) items) w4
        = Inr w'"
      "has_timeline w' k (xs @ [pack_step (uuid_stream e (uuid_calls w + 2)) items])"
      "conversations w' = conversations w4" "uuid_calls w' = uuid_calls w4"
    using mcp_appendStep_timeline [OF tl] by blast
  have "mock_pack e sc k rag w =
          Inr (items, setAgentState ''writer'' Thinking
                         (Some (''Drafting response'' @ [ellipsis])) w')"
    using w'(1)
    by (simp add: mock_pack_def Let_def split_def and_then_def w4_def items_def)
  then show ?thesis using w' by (simp add: w4_def)
qed

lemma mock_generate_ok:
  fixes sc agent :: string and rag :: rag_context and e :: env and w :: world
    and items :: "context_window_item list"
  assumes "has_timeline w k xs"
  defines "reply \<equiv> mock_reply e (uuid_stream e (uuid_calls w)) agent sc rag items k"
  shows "\<exists>w'. mock_generate e c agent sc k rag items w = Inr w' \<and>
           has_timeline w' k
             (xs @ [generate_step (uuid_stream e (uuid_calls w + 1)) sc items reply
                      (llmInfo e items)]) \<and>
           conversations w' = conversations (pushMessage c reply w) \<and>
           uuid_calls w' = uuid_calls w + 2"
proof -
  define w3 where "w3 = setAgentState ''writer'' Responding
      (Some (''Finalizing response'' @ [ellipsis]))
      (setAgentState ''researcher'' Idle None (setAgentState ''planner'' Idle None w))"
  define w6 where "w6 = snd (uuid e (pushMessage c reply (snd (uuid e w3))))"
  have tl: "has_timeline w6 k xs" using assms(1) by (simp add: w6_def w3_def)
  obtain w' where w': "mcp_appendStep k
        (generate_step (uuid_stream e (uuid_calls w + 1)) sc items reply (llmInfo e items)) w6
        = Inr w'"
      "has_timeline w' k
         (xs @ [generate_step (uuid_stream e (uuid_calls w + 1)) sc items reply
                  (llmInfo e items)])"
      "conversations w' = conversations w6" "uuid_calls w' = uuid_calls w6"
    using mcp_appendStep_timeline [OF tl] by blast
  have "mock_generate e c agent sc k rag items w = Inr (setAgentState ''writer'' Idle None w')"
    using w'(1)
    by (simp add: mock_generate_def Let_def split_def and_then_def w6_def w3_def reply_def)
  moreover have "conversations w6 = conversations (pushMessage c reply w)"
    by (simp add: w6_def w3_def pushMessage_def uuid_def setAgentState_def)
  ultimately show ?thesis using w' by (simp add: w6_def w3_def)
qed


lemma conversations_pushMessage_cong:
  "conversations w = conversations v \<Longrightarrow>
   conversations (pushMessage c m w) = conversations (pushMessage c m v)"
  by (simp add: pushMessage_def)

subsection \<open>The local path\<close>

lemma sendMessageMockPath_ok:
  fixes sc agent :: string and e :: env and w :: world
  assumes "has_timeline w k xs"
  shows "\<exists>w' chunks items ids.
     sendMessageMockPath e c agent sc k U w = Inr (U, w') \<and>
     (\<exists>w0. chunks = retrieve e (local_query sc) w0) \<and>
     (\<exists>id1 id2. items = pack_items id1 id2 sc chunks) \<and>
     has_timeline w' k (xs @ local_steps e agent sc k chunks items ids) \<and>
     conversations w' =
       conversations (pushMessage c (local_reply e (ids ! 5) agent sc k chunks items) w)"
proof -
  define rf where "rf = rewriteQueryForRetrieval sc"
  define q where "q = local_query sc"
  have q: "q = (if rf \<noteq> [] then rf else sc)"
    by (simp add: q_def rf_def local_query_def Let_def)
  obtain w1 where w1: "mock_plan e sc rf k w = Inr w1"
      "has_timeline w1 k (xs @ [local_plan_step (uuid_stream e (uuid_calls w)) sc rf])"
      "conversations w1 = conversations w"
    using mock_plan_ok [OF assms(1)] by blast
  obtain w2 where w2: "mock_route e k w1 = Inr w2"
      "has_timeline w2 k ((xs @ [local_plan_step (uuid_stream e (uuid_calls w)) sc rf])
         @ [route_step (uuid_stream e (uuid_calls w1))])"
      "conversations w2 = conversations w1"
    using mock_route_ok [OF w1(2)] by blast
  obtain w3 w0 where w3: "mock_retrieve e sc rf k w2 =
        Inr (\<lparr>rag_query = q, rag_chunks = retrieve e q w0\<rparr>, w3)"
      "has_timeline w3 k (((xs @ [local_plan_step (uuid_stream e (uuid_calls w)) sc rf])
         @ [route_step (uuid_stream e (uuid_calls w1))])
         @ [retrieve_step (uuid_stream e (uuid_calls w2 + 4)) q (retrieve e q w0)])"
      "conversations w3 = conversations w2"
    using mock_retrieve_ok [OF w2(2), where e=e and sc=sc and rf=rf] unfolding q by blast
  define chunks where "chunks = retrieve e q w0"
  define rag where "rag = \<lparr>rag_query = q, rag_chunks = chunks\<rparr>"
  define items where "items = pack_items (uuid_stream e (uuid_calls w3))
      (uuid_stream e (uuid_calls w3 + 1)) sc chunks"
  obtain w4 where w4: "mock_pack e sc k rag w3 = Inr (items, w4)"
      "has_timeline w4 k ((((xs @ [local_plan_step (uuid_stream e (uuid_calls w)) sc rf])
         @ [route_step (uuid_stream e (uuid_calls w1))])
         @ [retrieve_step (uuid_stream e (uuid_calls w2 + 4)) q chunks])
         @ [pack_step (uuid_stream e (uuid_calls w3 + 2)) items])"
      "conversations w4 = conversations w3"
    using mock_pack_ok [OF w3(2), where e=e and sc=sc and rag=rag]
    unfolding items_def rag_def chunks_def by auto
  define reply where "reply = mock_reply e (uuid_stream e (uuid_calls w4)) agent sc rag items k"
  obtain w5 where w5: "mock_generate e c agent sc k rag items w4 = Inr w5"
      "has_timeline w5 k (((((xs @ [local_plan_step (uuid_stream e (uuid_calls w)) sc rf])
         @ [route_step (uuid_stream e (uuid_calls w1))])
         @ [retrieve_step (uuid_stream e (uuid_calls w2 + 4)) q chunks])
         @ [pack_step (uuid_stream e (uuid_calls w3 + 2)) items])
         @ [generate_step (uuid_stream e (uuid_calls w4 + 1)) sc items reply (llmInfo e items)])"
      "conversations w5 = conversations (pushMessage c reply w4)"
    using mock_generate_ok [OF w4(2), where e=e and agent=agent and sc=sc and rag=rag
        and items=items and c=c]
    unfolding reply_def by blast
  define ids where "ids = [uuid_stream e (uuid_calls w), uuid_stream e (uuid_calls w1),
      uuid_stream e (uuid_calls w2 + 4), uuid_stream e (uuid_calls w3 + 2),
      uuid_stream e (uuid_calls w4 + 1), uuid_stream e (uuid_calls w4)]"
  have reply: "reply = local_reply e (ids ! 5) agent sc k chunks items"
    by (simp add: reply_def local_reply_def rag_def q_def ids_def)
  have run: "sendMessageMockPath e c agent sc k U w = Inr (U, w5)"
    using w1(1) w2(1) w3(1) w4(1) w5(1)
    by (simp add: sendMessageMockPath_def and_then_def Let_def rf_def [symmetric]
        rag_def [symmetric] chunks_def [symmetric])
  have conv: "conversations w5 =
      conversations (pushMessage c (local_reply e (ids ! 5) agent sc k chunks items) w)"
    using w5(3) conversations_pushMessage_cong [of w4 w c reply] w4(3) w3(3) w2(3) w1(3)
    by (simp add: reply)
  have tl: "has_timeline w5 k (xs @ local_steps e agent sc k chunks items ids)"
    using w5(2)
    by (simp add: local_steps_def ids_def reply [unfolded ids_def] rf_def q_def)
  have ch: "\<exists>w0. chunks = retrieve e (local_query sc) w0"
    unfolding chunks_def q_def by blast
  have it: "\<exists>id1 id2. items = pack_items id1 id2 sc chunks"
    unfolding items_def by blast
  from run ch it tl conv show ?thesis
    by - (rule exI [of _ w5], rule exI [of _ chunks], rule exI [of _ items],
          rule exI [of _ ids], intro conjI)
qed

subsection \<open>The remote path\<close>

lemma applyBackendProtocol_loop_ok:
  "has_timeline w k xs \<Longrightarrow>
   \<exists>w' ids. length ids = length (entries_before_null ss) \<and>
     applyBackendProtocol_loop e k ss w =
       (if None \<in> set ss then Inl (ReadOfNull, w') else Inr w') \<and>
     has_timeline w' k
       (xs @ map (\<lambda>(i, s). backend_step i s) (zip ids (entries_before_null ss))) \<and>
     conversations w' = conversations w"
proof (induction ss arbitrary: w xs rule: entries_before_null.induct)
  case 1
  then show ?case by simp
next
  case (2 rest)
  then show ?case by simp
next
  case (3 s ss)
  define iw where "iw = (case bs_id s of None \<Rightarrow> uuid e w
                         | Some x \<Rightarrow> if x \<noteq> [] then (x, w) else uuid e w)"
  have tl: "has_timeline (snd iw) k xs" and cv: "conversations (snd iw) = conversations w"
    using "3.prems" by (auto simp: iw_def split: option.splits)
  obtain w1 where w1: "mcp_appendStep k (backend_step (fst iw) s) (snd iw) = Inr w1"
      "has_timeline w1 k (xs @ [backend_step (fst iw) s])"
      "conversations w1 = conversations (snd iw)"
    using mcp_appendStep_timeline [OF tl] by blast
  obtain w' ids where r: "length ids = length (entries_before_null ss)"
      "applyBackendProtocol_loop e k ss w1 =
         (if None \<in> set ss then Inl (ReadOfNull, w') else Inr w')"
      "has_timeline w' k ((xs @ [backend_step (fst iw) s])
          @ map (\<lambda>(i, s). backend_step i s) (zip ids (entries_before_null ss)))"
      "conversations w' = conversations w1"
    using "3.IH" [OF w1(2)] by blast
  have "applyBackendProtocol_loop e k (Some s # ss) w =
      (if None \<in> set (Some s # ss) then Inl (ReadOfNull, w') else Inr w')"
    using w1(1) r(2) by (simp add: iw_def [symmetric] split_def)
  moreover have "has_timeline w' k
      (xs @ map (\<lambda>(i, s). backend_step i s)
              (zip (fst iw # ids) (entries_before_null (Some s # ss))))"
    using r(3) by simp
  moreover have "length (fst iw # ids) = length (entries_before_null (Some s # ss))"
    using r(1) by simp
  moreover have "conversations w' = conversations w" using r(4) w1(3) cv by simp
  ultimately show ?case
    by - (rule exI [of _ w'], rule exI [of _ "fst iw # ids"], intro conjI)
qed

text \<open>Applying the protocol of an answer appends the steps of the entries in front of the
  first \<open>null\<close>, and raises an exception exactly when there is one or the protocol cannot
  be iterated.\<close>

lemma applyBackendProtocol_ok:
  assumes "has_timeline w k xs"
  shows "\<exists>w' ids site. length ids = length (applied_entries res) \<and>
     applyBackendProtocol e k res w =
       (if handling_throws res then Inl (site, w') else Inr w') \<and>
     has_timeline w' k
       (xs @ map (\<lambda>(i, s). backend_step i s) (zip ids (applied_entries res))) \<and>
     conversations w' = conversations w"
proof (cases "res_protocol res")
  case NotIterable
  have "length ([] :: string list) = length (applied_entries res)"
    by (simp add: applied_entries_def NotIterable)
  moreover have "applyBackendProtocol e k res w =
       (if handling_throws res then Inl (IterationOfNonIterable, w) else Inr w)"
    by (simp add: applyBackendProtocol_def handling_throws_def NotIterable)
  moreover have "has_timeline w k
       (xs @ map (\<lambda>(i, s). backend_step i s) (zip [] (applied_entries res)))"
    using assms by simp
  ultimately show ?thesis
    by - (rule exI [of _ w], rule exI [of _ "[]"], rule exI [of _ IterationOfNonIterable],
          intro conjI, simp_all)
next
  case (Entries ss)
  obtain w' ids where r: "length ids = length (entries_before_null ss)"
      "applyBackendProtocol_loop e k ss w =
         (if None \<in> set ss then Inl (ReadOfNull, w') else Inr w')"
      "has_timeline w' k
         (xs @ map (\<lambda>(i, s). backend_step i s) (zip ids (entries_before_null ss)))"
      "conversations w' = conversations w"
    using applyBackendProtocol_loop_ok [OF assms] by blast
  have "length ids = length (applied_entries res)"
    using r(1) by (simp add: applied_entries_def Entries)
  moreover have "applyBackendProtocol e k res w =
       (if handling_throws res then Inl (ReadOfNull, w') else Inr w')"
    using r(2) by (simp add: applyBackendProtocol_def handling_throws_def Entries)
  moreover have "has_timeline w' k
       (xs @ map (\<lambda>(i, s). backend_step i s) (zip ids (applied_entries res)))"
    using r(3) by (simp add: applied_entries_def Entries)
  ultimately show ?thesis
    using r(4)
    by - (rule exI [of _ w'], rule exI [of _ ids], rule exI [of _ ReadOfNull], intro conjI)
qed

text \<open>The handler of \<open>catchError\<close> appends the \<open>error\<close> step and runs the local path.\<close>

lemma remote_failure_ok:
  assumes "has_timeline w7 k xs"
  shows "\<exists>w' j2 chunks items ids.
     remote_failure e c agent sc k U err w7 = Inr (U, w') \<and>
     (\<exists>w0. chunks = retrieve e (local_query sc) w0) \<and>
     (\<exists>id1 id2. items = pack_items id1 id2 sc chunks) \<and>
     has_timeline w' k (xs @ error_step j2 err # local_steps e agent sc k chunks items ids) \<and>
     conversations w' =
       conversations (pushMessage c (local_reply e (ids ! 5) agent sc k chunks items) w7)"
proof -
  define j2 where "j2 = fst (uuid e w7)"
  have tl: "has_timeline (snd (uuid e w7)) k xs"
    using assms by simp
  obtain w8 where w8:
      "mcp_appendStep k (error_step j2 err) (snd (uuid e w7)) = Inr w8"
      "has_timeline w8 k (xs @ [error_step j2 err])"
      "conversations w8 = conversations (snd (uuid e w7))"
    using mcp_appendStep_timeline [OF tl] by blast
  have run: "remote_failure e c agent sc k U err w7 = sendMessageMockPath e c agent sc k U w8"
    unfolding remote_failure_def split_def Let_def j2_def [symmetric]
    by (simp only: w8(1) and_then_def sum.case)
  have cv: "conversations w8 = conversations w7"
    using w8(3) by simp
  obtain w' chunks items ids where r:
      "remote_failure e c agent sc k U err w7 = Inr (U, w')"
      "\<exists>w0. chunks = retrieve e (local_query sc) w0"
      "\<exists>id1 id2. items = pack_items id1 id2 sc chunks"
      "has_timeline w' k
         ((xs @ [error_step j2 err]) @ local_steps e agent sc k chunks items ids)"
      "conversations w' =
         conversations (pushMessage c (local_reply e (ids ! 5) agent sc k chunks items) w8)"
    using sendMessageMockPath_ok [OF w8(2), where e=e and c=c and agent=agent and sc=sc
        and U=U]
    unfolding run by blast
  have tl': "has_timeline w' k
       (xs @ error_step j2 err # local_steps e agent sc k chunks items ids)"
    using r(4) by simp
  have cv': "conversations w' =
       conversations (pushMessage c (local_reply e (ids ! 5) agent sc k chunks items) w7)"
    using r(5) conversations_pushMessage_cong [OF cv, of c] by simp
  from r(1,2,3) tl' cv' show ?thesis
    by - (rule exI [of _ w'], rule exI [of _ j2], rule exI [of _ chunks],
          rule exI [of _ items], rule exI [of _ ids], intro conjI)
qed

subsection \<open>\<open>sendMessage\<close>\<close>

lemma length_fill_template: "length (fill_template r k s) = length s"
  by (induction s arbitrary: k) simp_all

lemma inherited_property_length: "inherited_property k \<Longrightarrow> length k \<le> 20"
  by (auto simp: inherited_property_def object_prototype_names_def)

text \<open>An identifier drawn by \<open>uuid()\<close> has 36 characters: it is not the name of an
  inherited property.\<close>

lemma uuid_not_inherited: "\<not> inherited_property (uuid_stream e n)"
proof
  assume "inherited_property (uuid_stream e n)"
  then have "length (uuid_stream e n) \<le> 20" by (rule inherited_property_length)
  then show False by (simp add: uuid_stream_def length_fill_template uuid_template_def)
qed

lemma uuid_calls_mcp_addProtocol [simp]:
  "uuid_calls (mcp_addProtocol t w) = uuid_calls w"
  by (simp add: mcp_addProtocol_def)

lemma conversations_mcp_addProtocol [simp]:
  "conversations (mcp_addProtocol t w) = conversations w"
  by (simp add: mcp_addProtocol_def)

text \<open>After the user message has been pushed the turn has a timeline, with the steps it
  had before (none, for a new identifier).\<close>

lemma sendMessage_start:
  "has_timeline (after_user_message e content w) (turn_id e w)
     (protocol_steps (protocols w) (turn_id e w)) \<and>
   conversations (after_user_message e content w) =
     conversations (pushMessage (activeConversationId w) (turn_message e content w) w) \<and>
   uuid_calls (after_user_message e content w) = uuid_calls w + 2"
proof (cases "protocols w (turn_id e w)")
  case None
  then show ?thesis
    using uuid_not_inherited [of e "uuid_calls w"]
    by (simp add: after_user_message_def has_timeline_def mcp_addProtocol_def addProtocol_def
        uuid_def pushMessage_def absent_def protocol_steps_def turn_id_def)
next
  case (Some p)
  then show ?thesis
    by (simp add: after_user_message_def has_timeline_def mcp_addProtocol_def addProtocol_def
        uuid_def pushMessage_def absent_def protocol_steps_def turn_id_def)
qed

lemma sendMessage_unconfigured:
  "\<not> isConfigured e \<Longrightarrow>
   sendMessage e content w =
     sendMessageMockPath e (activeConversationId w) (selected_agent w) (sanitize content)
       (turn_id e w) (turn_message e content w) (after_user_message e content w)"
  by (simp add: sendMessage_def Let_def split_def after_user_message_def turn_message_def
      turn_id_def selected_agent_def)

lemma sendMessage_local:
  assumes "\<not> isConfigured e"
  shows "\<exists>w' chunks items ids.
     sendMessage e content w = Inr (turn_message e content w, w') \<and>
     (\<exists>w0. chunks = retrieve e (local_query (sanitize content)) w0) \<and>
     (\<exists>id1 id2. items = pack_items id1 id2 (sanitize content) chunks) \<and>
     has_timeline w' (turn_id e w)
       (protocol_steps (protocols w) (turn_id e w)
        @ local_steps e (selected_agent w) (sanitize content) (turn_id e w) chunks items ids) \<and>
     conversations w' =
       conversations (pushMessage (activeConversationId w)
         (local_reply e (ids ! 5) (selected_agent w) (sanitize content) (turn_id e w)
            chunks items)
         (pushMessage (activeConversationId w) (turn_message e content w) w))"
  using sendMessageMockPath_ok [OF sendMessage_start [of e content w, THEN conjunct1],
      where e=e and c="activeConversationId w"
        and agent="selected_agent w" and sc="sanitize content"
        and U="turn_message e content w"]
    conversations_pushMessage_cong [OF
      sendMessage_start [of e content w, THEN conjunct2, THEN conjunct1],
      of "activeConversationId w"]
  unfolding sendMessage_unconfigured [OF assms] by simp


lemma sendMessage_configured:
  assumes "isConfigured e"
  shows "\<exists>w7 j1.
     has_timeline w7 (turn_id e w)
       (protocol_steps (protocols w) (turn_id e w) @ [remote_plan_step j1 (sanitize content)]) \<and>
     conversations w7 =
       conversations (pushMessage (activeConversationId w) (turn_message e content w) w) \<and>
     sendMessage e content w =
       (case chatCompletions e (turn_request content w) of
          Inr res \<Rightarrow>
            (case remote_success e (activeConversationId w) (selected_agent w)
                    (turn_id e w) res w7 of
               Inr w8 \<Rightarrow> Inr (turn_message e content w, w8)
             | Inl (site, w8) \<Rightarrow>
                 remote_failure e (activeConversationId w) (selected_agent w)
                   (sanitize content) (turn_id e w) (turn_message e content w)
                   (type_error e site) w8)
        | Inl err \<Rightarrow>
            remote_failure e (activeConversationId w) (selected_agent w) (sanitize content)
              (turn_id e w) (turn_message e content w) err w7)"
proof -
  define w4 where "w4 = after_user_message e content w"
  define w6 where "w6 = snd (uuid e (setAgentState ''planner'' Thinking
                       (Some (''Contacting backend'' @ [ellipsis])) w4))"
  define j1 where "j1 = uuid_stream e (uuid_calls w + 2)"
  note start = sendMessage_start [of e content w, folded w4_def]
  have tl: "has_timeline w6 (turn_id e w) (protocol_steps (protocols w) (turn_id e w))"
    using start by (simp add: w6_def)
  obtain w7 where w7:
      "mcp_appendStep (turn_id e w) (remote_plan_step j1 (sanitize content)) w6 = Inr w7"
      "has_timeline w7 (turn_id e w)
         (protocol_steps (protocols w) (turn_id e w) @ [remote_plan_step j1 (sanitize content)])"
      "conversations w7 = conversations w6"
    using mcp_appendStep_timeline [OF tl] by blast
  have "sendMessage e content w =
          and_then (mcp_appendStep (turn_id e w) (remote_plan_step j1 (sanitize content)) w6)
            (\<lambda>w7. case chatCompletions e (turn_request content w) of
                Inr res \<Rightarrow>
                  (case remote_success e (activeConversationId w) (selected_agent w)
                          (turn_id e w) res w7 of
                     Inr w8 \<Rightarrow> Inr (turn_message e content w, w8)
                   | Inl (site, w8) \<Rightarrow>
                       remote_failure e (activeConversationId w) (selected_agent w)
                         (sanitize content) (turn_id e w) (turn_message e content w)
                         (type_error e site) w8)
              | Inl err \<Rightarrow>
                  remote_failure e (activeConversationId w) (selected_agent w)
                    (sanitize content) (turn_id e w) (turn_message e content w) err w7)"
    using assms start
    unfolding sendMessage_def Let_def split_def w6_def w4_def after_user_message_def
      turn_message_def turn_id_def selected_agent_def turn_request_def j1_def
    by (simp cong: sum.case_cong)
  then have "sendMessage e content w =
       (case chatCompletions e (turn_request content w) of
          Inr res \<Rightarrow>
            (case remote_success e (activeConversationId w) (selected_agent w)
                    (turn_id e w) res w7 of
               Inr w8 \<Rightarrow> Inr (turn_message e content w, w8)
             | Inl (site, w8) \<Rightarrow>
                 remote_failure e (activeConversationId w) (selected_agent w)
                   (sanitize content) (turn_id e w) (turn_message e content w)
                   (type_error e site) w8)
        | Inl err \<Rightarrow>
            remote_failure e (activeConversationId w) (selected_agent w) (sanitize content)
              (turn_id e w) (turn_message e content w) err w7)"
    by (simp only: w7(1) and_then_def sum.case)
  moreover have "conversations w7 =
       conversations (pushMessage (activeConversationId w) (turn_message e content w) w)"
    using w7(3) start by (simp add: w6_def)
  ultimately show ?thesis
    using w7(2) by - (rule exI [of _ w7], rule exI [of _ j1], intro conjI)
qed

text \<open>The call of the backend fails.\<close>

lemma sendMessage_remote_failure:
  assumes "isConfigured e" and "chatCompletions e (turn_request content w) = Inl err"
  shows "\<exists>w' j1 j2 chunks items ids.
     sendMessage e content w = Inr (turn_message e content w, w') \<and>
     (\<exists>w0. chunks = retrieve e (local_query (sanitize content)) w0) \<and>
     (\<exists>id1 id2. items = pack_items id1 id2 (sanitize content) chunks) \<and>
     has_timeline w' (turn_id e w)
       (protocol_steps (protocols w) (turn_id e w)
        @ [remote_plan_step j1 (sanitize content), error_step j2 err]
        @ local_steps e (selected_agent w) (sanitize content) (turn_id e w) chunks items ids) \<and>
     conversations w' =
       conversations (pushMessage (activeConversationId w)
         (local_reply e (ids ! 5) (selected_agent w) (sanitize content) (turn_id e w)
            chunks items)
         (pushMessage (activeConversationId w) (turn_message e content w) w))"
proof -
  obtain w7 j1 where w7:
      "has_timeline w7 (turn_id e w)
         (protocol_steps (protocols w) (turn_id e w) @ [remote_plan_step j1 (sanitize content)])"
      "conversations w7 =
         conversations (pushMessage (activeConversationId w) (turn_message e content w) w)"
      "sendMessage e content w =
         remote_failure e (activeConversationId w) (selected_agent w) (sanitize content)
           (turn_id e w) (turn_message e content w) err w7"
    using sendMessage_configured [OF assms(1), of w content] assms(2) by auto
  obtain w' j2 chunks items ids where r:
      "sendMessage e content w = Inr (turn_message e content w, w')"
      "\<exists>w0. chunks = retrieve e (local_query (sanitize content)) w0"
      "\<exists>id1 id2. items = pack_items id1 id2 (sanitize content) chunks"
      "has_timeline w' (turn_id e w)
         ((protocol_steps (protocols w) (turn_id e w) @ [remote_plan_step j1 (sanitize content)])
          @ error_step j2 err
            # local_steps e (selected_agent w) (sanitize content) (turn_id e w) chunks items ids)"
      "conversations w' =
         conversations (pushMessage (activeConversationId w)
           (local_reply e (ids ! 5) (selected_agent w) (sanitize content) (turn_id e w)
              chunks items) w7)"
    using remote_failure_ok [OF w7(1), where e=e and c="activeConversationId w"
        and agent="selected_agent w" and sc="sanitize content"
        and U="turn_message e content w" and err=err]
    unfolding w7(3) by blast
  have tl': "has_timeline w' (turn_id e w)
       (protocol_steps (protocols w) (turn_id e w)
        @ [remote_plan_step j1 (sanitize content), error_step j2 err]
        @ local_steps e (selected_agent w) (sanitize content) (turn_id e w) chunks items ids)"
    using r(4) by simp
  have cv': "conversations w' =
       conversations (pushMessage (activeConversationId w)
         (local_reply e (ids ! 5) (selected_agent w) (sanitize content) (turn_id e w)
            chunks items)
         (pushMessage (activeConversationId w) (turn_message e content w) w))"
    using r(5) conversations_pushMessage_cong [OF w7(2), of "activeConversationId w"] by simp
  from r(1,2,3) tl' cv' show ?thesis
    by - (rule exI [of _ w'], rule exI [of _ j1], rule exI [of _ j2], rule exI [of _ chunks],
          rule exI [of _ items], rule exI [of _ ids], intro conjI)
qed

text \<open>The backend answers and handling the answer raises an exception: the steps applied
  before it stay, the handler adds the \<open>error\<close> step, and the local path runs.\<close>

lemma sendMessage_remote_throw:
  assumes "isConfigured e" and "chatCompletions e (turn_request content w) = Inr res"
    and "handling_throws res"
  shows "\<exists>w' j1 bids site j2 chunks items ids.
     sendMessage e content w = Inr (turn_message e content w, w') \<and>
     length bids = length (applied_entries res) \<and>
     (\<exists>w0. chunks = retrieve e (local_query (sanitize content)) w0) \<and>
     (\<exists>id1 id2. items = pack_items id1 id2 (sanitize content) chunks) \<and>
     has_timeline w' (turn_id e w)
       (protocol_steps (protocols w) (turn_id e w)
        @ remote_plan_step j1 (sanitize content)
          # map (\<lambda>(i, s). backend_step i s) (zip bids (applied_entries res))
        @ error_step j2 (type_error e site)
          # local_steps e (selected_agent w) (sanitize content) (turn_id e w) chunks items ids) \<and>
     conversations w' =
       conversations (pushMessage (activeConversationId w)
         (local_reply e (ids ! 5) (selected_agent w) (sanitize content) (turn_id e w)
            chunks items)
         (pushMessage (activeConversationId w) (turn_message e content w) w))"
proof -
  obtain w7 j1 where w7:
      "has_timeline w7 (turn_id e w)
         (protocol_steps (protocols w) (turn_id e w) @ [remote_plan_step j1 (sanitize content)])"
      "conversations w7 =
         conversations (pushMessage (activeConversationId w) (turn_message e content w) w)"
      "sendMessage e content w =
         (case remote_success e (activeConversationId w) (selected_agent w)
                 (turn_id e w) res w7 of
            Inr w8 \<Rightarrow> Inr (turn_message e content w, w8)
          | Inl (site, w8) \<Rightarrow>
              remote_failure e (activeConversationId w) (selected_agent w)
                (sanitize content) (turn_id e w) (turn_message e content w)
                (type_error e site) w8)"
    using sendMessage_configured [OF assms(1), of w content] assms(2) by auto
  obtain w8 bids site where w8: "length bids = length (applied_entries res)"
      "applyBackendProtocol e (turn_id e w) res w7 = Inl (site, w8)"
      "has_timeline w8 (turn_id e w)
         ((protocol_steps (protocols w) (turn_id e w) @ [remote_plan_step j1 (sanitize content)])
          @ map (\<lambda>(i, s). backend_step i s) (zip bids (applied_entries res)))"
      "conversations w8 = conversations w7"
    using applyBackendProtocol_ok [OF w7(1), of res e] assms(3) by auto
  have run: "sendMessage e content w =
      remote_failure e (activeConversationId w) (selected_agent w)
        (sanitize content) (turn_id e w) (turn_message e content w) (type_error e site) w8"
    by (simp add: w7(3) remote_success_def w8(2))
  obtain w' j2 chunks items ids where r:
      "sendMessage e content w = Inr (turn_message e content w, w')"
      "\<exists>w0. chunks = retrieve e (local_query (sanitize content)) w0"
      "\<exists>id1 id2. items = pack_items id1 id2 (sanitize content) chunks"
      "has_timeline w' (turn_id e w)
         (((protocol_steps (protocols w) (turn_id e w) @ [remote_plan_step j1 (sanitize content)])
           @ map (\<lambda>(i, s). backend_step i s) (zip bids (applied_entries res)))
          @ error_step j2 (type_error e site)
            # local_steps e (selected_agent w) (sanitize content) (turn_id e w) chunks items ids)"
      "conversations w' =
         conversations (pushMessage (activeConversationId w)
           (local_reply e (ids ! 5) (selected_agent w) (sanitize content) (turn_id e w)
              chunks items) w8)"
    using remote_failure_ok [OF w8(3), where e=e and c="activeConversationId w"
        and agent="selected_agent w" and sc="sanitize content"
        and U="turn_message e content w" and err="type_error e site"]
    unfolding run by blast
  have tl': "has_timeline w' (turn_id e w)
       (protocol_steps (protocols w) (turn_id e w)
        @ remote_plan_step j1 (sanitize content)
          # map (\<lambda>(i, s). backend_step i s) (zip bids (applied_entries res))
        @ error_step j2 (type_error e site)
          # local_steps e (selected_agent w) (sanitize content) (turn_id e w) chunks items ids)"
    using r(4) by simp
  have "conversations w8 =
      conversations (pushMessage (activeConversationId w) (turn_message e content w) w)"
    using w8(4) w7(2) by simp
  then have cv': "conversations w' =
       conversations (pushMessage (activeConversationId w)
         (local_reply e (ids ! 5) (selected_agent w) (sanitize content) (turn_id e w)
            chunks items)
         (pushMessage (activeConversationId w) (turn_message e content w) w))"
    using r(5) conversations_pushMessage_cong [of w8
        "pushMessage (activeConversationId w) (turn_message e content w) w"
        "activeConversationId w"]
    by simp
  from r(1) w8(1) r(2,3) tl' cv' show ?thesis
    by - (rule exI [of _ w'], rule exI [of _ j1], rule exI [of _ bids], rule exI [of _ site],
          rule exI [of _ j2], rule exI [of _ chunks], rule exI [of _ items],
          rule exI [of _ ids], intro conjI)
qed

text \<open>The backend answers and handling the answer completes.\<close>

lemma sendMessage_remote_success:
  assumes "isConfigured e" and "chatCompletions e (turn_request content w) = Inr res"
    and "\<not> handling_throws res"
  shows "\<exists>w' j1 ids i.
     sendMessage e content w = Inr (turn_message e content w, w') \<and>
     length ids = length (applied_entries res) \<and>
     has_timeline w' (turn_id e w)
       (protocol_steps (protocols w) (turn_id e w)
        @ remote_plan_step j1 (sanitize content)
          # map (\<lambda>(i, s). backend_step i s) (zip ids (applied_entries res))) \<and>
     conversations w' =
       conversations (pushMessage (activeConversationId w)
         (backend_reply e i (selected_agent w) (turn_id e w) res)
         (pushMessage (activeConversationId w) (turn_message e content w) w))"
proof -
  obtain w7 j1 where w7:
      "has_timeline w7 (turn_id e w)
         (protocol_steps (protocols w) (turn_id e w) @ [remote_plan_step j1 (sanitize content)])"
      "conversations w7 =
         conversations (pushMessage (activeConversationId w) (turn_message e content w) w)"
      "sendMessage e content w =
         (case remote_success e (activeConversationId w) (selected_agent w)
                 (turn_id e w) res w7 of
            Inr w8 \<Rightarrow> Inr (turn_message e content w, w8)
          | Inl (site, w8) \<Rightarrow>
              remote_failure e (activeConversationId w) (selected_agent w)
                (sanitize content) (turn_id e w) (turn_message e content w)
                (type_error e site) w8)"
    using sendMessage_configured [OF assms(1), of w content] assms(2) by auto
  obtain w8 ids where w8: "length ids = length (applied_entries res)"
      "applyBackendProtocol e (turn_id e w) res w7 = Inr w8"
      "has_timeline w8 (turn_id e w)
         ((protocol_steps (protocols w) (turn_id e w) @ [remote_plan_step j1 (sanitize content)])
          @ map (\<lambda>(i, s). backend_step i s) (zip ids (applied_entries res)))"
      "conversations w8 = conversations w7"
    using applyBackendProtocol_ok [OF w7(1), of res e] assms(3) by auto
  define i where "i = fst (uuid e w8)"
  define reply where "reply = backend_reply e i (selected_agent w) (turn_id e w) res"
  define w' where "w' = setAgentState ''planner'' Idle None
      (pushMessage (activeConversationId w) reply (snd (uuid e w8)))"
  have "remote_success e (activeConversationId w) (selected_agent w) (turn_id e w) res w7 = Inr w'"
    by (simp add: remote_success_def w8(2) split_def Let_def w'_def reply_def i_def)
  then have run: "sendMessage e content w = Inr (turn_message e content w, w')"
    by (simp add: w7(3))
  have tl: "has_timeline w' (turn_id e w)
       (protocol_steps (protocols w) (turn_id e w)
        @ remote_plan_step j1 (sanitize content)
          # map (\<lambda>(i, s). backend_step i s) (zip ids (applied_entries res)))"
    using w8(3) by (simp add: w'_def)
  have "conversations (snd (uuid e w8)) =
      conversations (pushMessage (activeConversationId w) (turn_message e content w) w)"
    using w8(4) w7(2) by simp
  then have cv: "conversations w' =
      conversations (pushMessage (activeConversationId w) reply
        (pushMessage (activeConversationId w) (turn_message e content w) w))"
    using conversations_pushMessage_cong [of "snd (uuid e w8)"
        "pushMessage (activeConversationId w) (turn_message e content w) w"
        "activeConversationId w" reply]
    by (simp add: w'_def)
  from run w8(1) tl cv show ?thesis
    unfolding reply_def
    by - (rule exI [of _ w'], rule exI [of _ j1], rule exI [of _ ids], rule exI [of _ i],
          intro conjI)
qed

section \<open>The timeline of a turn\<close>

lemma has_timeline_steps: "has_timeline w k xs \<Longrightarrow> protocol_steps (protocols w) k = xs"
  by (auto simp: has_timeline_Some protocol_steps_def)

lemma step_type_simps [simp]:
  "step_type (local_plan_step i sc rf) = ''plan''"
  "step_type (route_step i) = ''route''"
  "step_type (retrieve_step i q cs) = ''retrieve''"
  "step_type (pack_step i items) = ''pack''"
  "step_type (generate_step i sc items reply info) = ''generate''"
  "step_type (error_step i err) = ''error''"
  "step_type (remote_plan_step i sc) = ''plan''"
  "step_type (backend_step i s) = backend_step_type s"
  by (simp_all add: local_plan_step_def route_step_def retrieve_step_def pack_step_def
      generate_step_def error_step_def remote_plan_step_def backend_step_def)

lemma local_steps_kinds [simp]:
  "map step_type (local_steps e agent sc t chunks items ids) =
     [''plan'', ''route'', ''retrieve'', ''pack'', ''generate'']"
  by (simp add: local_steps_def)





lemma initial_timeline [simp]: "timeline_kinds (initial_world e) k = []"
  by (simp add: timeline_kinds_def protocol_steps_def initial_world_def)

lemma failing_env_fails:
  "isConfigured failing_env \<and> chatCompletions failing_env req = Inl timeout_error"
  by (simp add: isConfigured_def chatCompletions_def failing_env_def offline_env_def)






section \<open>Fallback after a failed remote call\<close>

lemma chatCompletions_fails:
  "isConfigured e \<Longrightarrow> http_post e req = Inl err \<Longrightarrow> chatCompletions e req = Inl err"
  by (simp add: chatCompletions_def)

lemma local_reply_simps [simp]:
  "msg_role (local_reply e i agent sc t chunks items) = Agent"
  "msg_protocolTurnId (local_reply e i agent sc t chunks items) = Some t"
  "msg_llm (local_reply e i agent sc t chunks items) = Some (llmInfo e items)"
  by (simp_all add: local_reply_def mock_reply_def)

lemma error_step_actor [simp]: "actor_id (step_actor (error_step i err)) = ''backend''"
  by (simp add: error_step_def backend_actor_def)

text \<open>Two messages pushed to the same conversation stand at the end of its messages, in
  their order; every other conversation is as it was.\<close>

lemma conversations_pushMessage_twice:
  "conversations (pushMessage c m2 (pushMessage c m1 w)) =
     map (\<lambda>cv. if conv_id cv = c
               then cv\<lparr>conv_messages := conv_messages cv @ [m1, m2]\<rparr> else cv)
         (conversations w)"
  by (simp add: pushMessage_def comp_def)

text \<open>
  Claim C3. Where a backend is configured and the exchange fails, \<open>sendMessage\<close> does not
  raise: it delivers the user message, and the steps it adds to the turn's timeline are
  the remote plan step, one error step, whose actor is \<open>backend\<close>, and the five steps of the
  local path. The messages of the active conversation are then the messages it had,
  the user message, and a reply of the agent for this turn, in this order; every other
  conversation is as it was.
\<close>

theorem remote_failure_falls_back:
  assumes "isConfigured e" and "http_post e (turn_request content w) = Inl err"
  shows "\<exists>w' steps reply.
     sendMessage e content w = Inr (turn_message e content w, w') \<and>
     protocol_steps (protocols w') (turn_id e w) =
       protocol_steps (protocols w) (turn_id e w) @ steps \<and>
     map step_type steps =
       [''plan'', ''error'', ''plan'', ''route'', ''retrieve'', ''pack'', ''generate''] \<and>
     map (\<lambda>s. actor_id (step_actor s)) (filter (\<lambda>s. step_type s = ''error'') steps) =
       [''backend''] \<and>
     conversations w' =
       map (\<lambda>c. if conv_id c = activeConversationId w
                then c\<lparr>conv_messages :=
                         conv_messages c @ [turn_message e content w, reply]\<rparr>
                else c)
           (conversations w) \<and>
     msg_role reply = Agent \<and> msg_protocolTurnId reply = Some (turn_id e w) \<and>
     msg_role (turn_message e content w) = User"
proof -
  have f: "chatCompletions e (turn_request content w) = Inl err"
    using assms by (rule chatCompletions_fails)
  obtain w' j1 j2 chunks items ids where r:
      "sendMessage e content w = Inr (turn_message e content w, w')"
      "has_timeline w' (turn_id e w)
         (protocol_steps (protocols w) (turn_id e w)
          @ [remote_plan_step j1 (sanitize content), error_step j2 err]
          @ local_steps e (selected_agent w) (sanitize content) (turn_id e w) chunks items ids)"
      "conversations w' =
         conversations (pushMessage (activeConversationId w)
           (local_reply e (ids ! 5) (selected_agent w) (sanitize content) (turn_id e w)
              chunks items)
           (pushMessage (activeConversationId w) (turn_message e content w) w))"
    using sendMessage_remote_failure [OF assms(1) f] by blast
  define steps where "steps = [remote_plan_step j1 (sanitize content), error_step j2 err]
      @ local_steps e (selected_agent w) (sanitize content) (turn_id e w) chunks items ids"
  define reply where "reply = local_reply e (ids ! 5) (selected_agent w) (sanitize content)
      (turn_id e w) chunks items"
  have 1: "protocol_steps (protocols w') (turn_id e w) =
       protocol_steps (protocols w) (turn_id e w) @ steps"
    using has_timeline_steps [OF r(2)] by (simp add: steps_def)
  have 2: "map step_type steps =
       [''plan'', ''error'', ''plan'', ''route'', ''retrieve'', ''pack'', ''generate'']"
    by (simp add: steps_def)
  have 3: "map (\<lambda>s. actor_id (step_actor s)) (filter (\<lambda>s. step_type s = ''error'') steps) =
       [''backend'']"
    by (simp add: steps_def local_steps_def)
  have 4: "conversations w' =
       map (\<lambda>c. if conv_id c = activeConversationId w
                then c\<lparr>conv_messages :=
                         conv_messages c @ [turn_message e content w, reply]\<rparr>
                else c)
           (conversations w)"
    using r(3) by (simp only: reply_def conversations_pushMessage_twice)
  have 5: "msg_role reply = Agent" "msg_protocolTurnId reply = Some (turn_id e w)"
    by (simp_all add: reply_def)
  have 6: "msg_role (turn_message e content w) = User"
    by (simp add: turn_message_def user_message_def)
  from r(1) 1 2 3 4 5 6 show ?thesis
    by - (rule exI [of _ w'], rule exI [of _ steps], rule exI [of _ reply], intro conjI)
qed

theorem remote_failure_falls_back_witness:
  "isConfigured failing_env \<and>
   http_post failing_env (turn_request ''hello'' (initial_world failing_env)) =
     Inl timeout_error \<and>
   (\<exists>w' steps.
     sendMessage failing_env ''hello'' (initial_world failing_env) =
       Inr (turn_message failing_env ''hello'' (initial_world failing_env), w') \<and>
     protocol_steps (protocols w') (turn_id failing_env (initial_world failing_env)) = steps \<and>
     map step_type steps =
       [''plan'', ''error'', ''plan'', ''route'', ''retrieve'', ''pack'', ''generate''] \<and>
     map (\<lambda>s. actor_id (step_actor s)) (filter (\<lambda>s. step_type s = ''error'') steps) =
       [''backend''] \<and>
     map conv_id (conversations w') = [''conv-1''] \<and>
     map (\<lambda>c. map msg_role (conv_messages c)) (conversations w') = [[Agent, User, Agent]] \<and>
     map (\<lambda>c. map msg_content (take 2 (conv_messages c))) (conversations w') =
       [[''Hello! I am your multi-agent assistant. How can we help today?'', ''hello'']] \<and>
     map (\<lambda>c. map msg_protocolTurnId (drop 1 (conv_messages c))) (conversations w') =
       [[Some (turn_id failing_env (initial_world failing_env)),
         Some (turn_id failing_env (initial_world failing_env))]])"
proof -
  have h1: "isConfigured failing_env"
    by (simp add: failing_env_fails)
  have h2: "http_post failing_env (turn_request ''hello'' (initial_world failing_env)) =
     Inl timeout_error"
    by (simp add: failing_env_def offline_env_def)
  let ?w = "initial_world failing_env"
  obtain w' steps reply where r:
      "sendMessage failing_env ''hello'' ?w = Inr (turn_message failing_env ''hello'' ?w, w')"
      "protocol_steps (protocols w') (turn_id failing_env ?w) =
         protocol_steps (protocols ?w) (turn_id failing_env ?w) @ steps"
      "map step_type steps =
         [''plan'', ''error'', ''plan'', ''route'', ''retrieve'', ''pack'', ''generate'']"
      "map (\<lambda>s. actor_id (step_actor s)) (filter (\<lambda>s. step_type s = ''error'') steps) =
         [''backend'']"
      "conversations w' =
         map (\<lambda>c. if conv_id c = activeConversationId ?w
                  then c\<lparr>conv_messages :=
                           conv_messages c @ [turn_message failing_env ''hello'' ?w, reply]\<rparr>
                  else c)
             (conversations ?w)"
      "msg_role reply = Agent"
      "msg_protocolTurnId reply = Some (turn_id failing_env ?w)"
      "msg_role (turn_message failing_env ''hello'' ?w) = User"
    using remote_failure_falls_back [OF h1 h2] by (elim exE conjE) (rule that)
  have s: "sanitize ''hello'' = ''hello''"
    by code_simp
  have 1: "protocol_steps (protocols w') (turn_id failing_env ?w) = steps"
    using r(2) by (simp add: initial_world_def protocol_steps_def)
  have 2: "map conv_id (conversations w') = [''conv-1'']"
    unfolding r(5) by (simp add: initial_world_def)
  have 3: "map (\<lambda>c. map msg_role (conv_messages c)) (conversations w') =
      [[Agent, User, Agent]]"
    unfolding r(5) using r(6,8) by (simp add: initial_world_def)
  have 4: "map (\<lambda>c. map msg_content (take 2 (conv_messages c))) (conversations w') =
       [[''Hello! I am your multi-agent assistant. How can we help today?'', ''hello'']]"
    unfolding r(5) by (simp add: initial_world_def turn_message_def user_message_def s)
  have 5: "map (\<lambda>c. map msg_protocolTurnId (drop 1 (conv_messages c))) (conversations w') =
       [[Some (turn_id failing_env ?w), Some (turn_id failing_env ?w)]]"
    unfolding r(5) using r(7)
    by (simp add: initial_world_def turn_message_def user_message_def)
  have "\<exists>w' steps.
     sendMessage failing_env ''hello'' ?w = Inr (turn_message failing_env ''hello'' ?w, w') \<and>
     protocol_steps (protocols w') (turn_id failing_env ?w) = steps \<and>
     map step_type steps =
       [''plan'', ''error'', ''plan'', ''route'', ''retrieve'', ''pack'', ''generate''] \<and>
     map (\<lambda>s. actor_id (step_actor s)) (filter (\<lambda>s. step_type s = ''error'') steps) =
       [''backend''] \<and>
     map conv_id (conversations w') = [''conv-1''] \<and>
     map (\<lambda>c. map msg_role (conv_messages c)) (conversations w') = [[Agent, User, Agent]] \<and>
     map (\<lambda>c. map msg_content (take 2 (conv_messages c))) (conversations w') =
       [[''Hello! I am your multi-agent assistant. How can we help today?'', ''hello'']] \<and>
     map (\<lambda>c. map msg_protocolTurnId (drop 1 (conv_messages c))) (conversations w') =
       [[Some (turn_id failing_env ?w), Some (turn_id failing_env ?w)]]"
    using r(1) 1 r(3,4) 2 3 4 5
    by - (rule exI [of _ w'], rule exI [of _ steps], intro conjI)
  with h1 h2 show ?thesis
    by (intro conjI)
qed

section \<open>The user message\<close>

lemma sendMessage_delivers:
  "\<exists>w' reply.
     sendMessage e content w = Inr (turn_message e content w, w') \<and>
     conversations w' =
       conversations (pushMessage (activeConversationId w) reply
         (pushMessage (activeConversationId w) (turn_message e content w) w)) \<and>
     msg_role reply = Agent"
proof (cases "isConfigured e")
  case False
  then show ?thesis
    using sendMessage_local [OF False, of content w] local_reply_simps(1) by metis
next
  case True
  show ?thesis
  proof (cases "chatCompletions e (turn_request content w)")
    case (Inl err)
    then show ?thesis
      using sendMessage_remote_failure [OF True Inl] local_reply_simps(1) by metis
  next
    case (Inr res)
    show ?thesis
    proof (cases "handling_throws res")
      case False
      have "msg_role (backend_reply e i (selected_agent w) (turn_id e w) res) = Agent" for i
        by (simp add: backend_reply_def)
      then show ?thesis
        using sendMessage_remote_success [OF True Inr False] by metis
    next
      case throws: True
      show ?thesis
        using sendMessage_remote_throw [OF True Inr throws] local_reply_simps(1) by metis
    qed
  qed
qed

lemma sendMessage_appends:
  "\<exists>w' reply.
     sendMessage e content w = Inr (turn_message e content w, w') \<and>
     conversations w' =
       conversations (pushMessage (activeConversationId w) reply
         (pushMessage (activeConversationId w) (turn_message e content w) w)) \<and>
     msg_role reply = Agent \<and>
     conversations w' =
       map (\<lambda>c. if conv_id c = activeConversationId w
                then c\<lparr>conv_messages :=
                         conv_messages c @ [turn_message e content w, reply]\<rparr>
                else c)
           (conversations w)"
proof -
  obtain w' reply where r:
      "sendMessage e content w = Inr (turn_message e content w, w')"
      "conversations w' =
         conversations (pushMessage (activeConversationId w) reply
           (pushMessage (activeConversationId w) (turn_message e content w) w))"
      "msg_role reply = Agent"
    using sendMessage_delivers [of e content w] by (elim exE conjE) (rule that)
  have "conversations w' =
       map (\<lambda>c. if conv_id c = activeConversationId w
                then c\<lparr>conv_messages :=
                         conv_messages c @ [turn_message e content w, reply]\<rparr>
                else c)
           (conversations w)"
    using r(2) by (simp only: conversations_pushMessage_twice)
  with r show ?thesis
    by - (rule exI [of _ w'], rule exI [of _ reply], intro conjI)
qed

text \<open>
  Claim C5. For every raw input, \<open>sendMessage\<close> delivers and appends a user message whose
  content is the input with every run of whitespace collapsed to one space, trimmed, and
  cut to 4000 characters: the whitespace-separated tokens of the input joined by single
  spaces, cut to 4000 characters. No input is rejected: on every path the call returns the
  user message, and the messages of the active conversation are then those it had, the
  user message and a reply, in this order. The input
  "   please   tell me about RAG   " gives the content "please tell me about RAG".
\<close>

theorem user_message_sanitized:
  "msg_role (turn_message e raw w) = User \<and>
   msg_content (turn_message e raw w) = sanitize raw \<and>
   sanitize raw = take 4000 (trim (collapse_ws raw)) \<and>
   sanitize raw = take 4000 (join_with CHR '' '' (ws_tokens raw)) \<and>
   length (sanitize raw) \<le> 4000 \<and>
   sanitize ''   please   tell me about RAG   '' = ''please tell me about RAG'' \<and>
   (\<exists>w' reply.
      sendMessage e raw w = Inr (turn_message e raw w, w') \<and>
      conversations w' =
        conversations (pushMessage (activeConversationId w) reply
          (pushMessage (activeConversationId w) (turn_message e raw w) w)) \<and>
      msg_role reply = Agent \<and>
      conversations w' =
        map (\<lambda>c. if conv_id c = activeConversationId w
                 then c\<lparr>conv_messages :=
                          conv_messages c @ [turn_message e raw w, reply]\<rparr>
                 else c)
            (conversations w))"
proof (intro conjI)
  show "sanitize ''   please   tell me about RAG   '' = ''please tell me about RAG''"
    by code_simp
  show "\<exists>w' reply.
      sendMessage e raw w = Inr (turn_message e raw w, w') \<and>
      conversations w' =
        conversations (pushMessage (activeConversationId w) reply
          (pushMessage (activeConversationId w) (turn_message e raw w) w)) \<and>
      msg_role reply = Agent \<and>
      conversations w' =
        map (\<lambda>c. if conv_id c = activeConversationId w
                 then c\<lparr>conv_messages :=
                          conv_messages c @ [turn_message e raw w, reply]\<rparr>
                 else c)
            (conversations w)"
    by (rule sendMessage_appends)
  show "sanitize raw = take 4000 (trim (collapse_ws raw))"
    by (simp add: sanitize_def)
  show "sanitize raw = take 4000 (join_with CHR '' '' (ws_tokens raw))"
    by (rule sanitize_tokens)
  show "length (sanitize raw) \<le> 4000"
    by (simp add: sanitize_def)
qed (simp_all add: turn_message_def user_message_def)

section \<open>Token accounting of the local path\<close>

lemma local_steps_last:
  "last (local_steps e agent sc t chunks items ids) =
     generate_step (ids ! 4) sc items (local_reply e (ids ! 5) agent sc t chunks items)
       (llmInfo e items) \<and>
   last (butlast (local_steps e agent sc t chunks items ids)) = pack_step (ids ! 3) items"
  by (simp add: local_steps_def)

lemma step_payload_simps [simp]:
  "step_contextWindow (pack_step i items) = Some items"
  "step_model (generate_step i sc items reply info) = Some (FrontEnd info)"
  by (simp_all add: pack_step_def generate_step_def)

lemma llmInfo_tokens:
  "llm_tokens (llmInfo e items) =
     Some \<lparr>tokens_prompt =
             Some (Num (of_nat (sum_list (map (\<lambda>it. case item_tokens it of None \<Rightarrow> 50
                                                    | Some t \<Rightarrow> t) items)))),
           tokens_completion = Some (Num 160),
           tokens_total =
             Some (Num (of_nat (sum_list (map (\<lambda>it. case item_tokens it of None \<Rightarrow> 50
                                                    | Some t \<Rightarrow> t) items) + 160)))\<rparr>"
  by (simp add: llmInfo_def promptTokens_sum)

lemma local_path_outcome:
  assumes "\<not> isConfigured e \<or> remote_failed e content w"
  shows "\<exists>w' pre chunks items ids.
     sendMessage e content w = Inr (turn_message e content w, w') \<and>
     (\<exists>id1 id2. items = pack_items id1 id2 (sanitize content) chunks) \<and>
     has_timeline w' (turn_id e w)
       (protocol_steps (protocols w) (turn_id e w) @ pre
        @ local_steps e (selected_agent w) (sanitize content) (turn_id e w) chunks items ids) \<and>
     conversations w' =
       conversations (pushMessage (activeConversationId w)
         (local_reply e (ids ! 5) (selected_agent w) (sanitize content) (turn_id e w)
            chunks items)
         (pushMessage (activeConversationId w) (turn_message e content w) w))"
proof (cases "isConfigured e")
  case False
  obtain w' chunks items ids where r:
      "sendMessage e content w = Inr (turn_message e content w, w')"
      "\<exists>id1 id2. items = pack_items id1 id2 (sanitize content) chunks"
      "has_timeline w' (turn_id e w)
         (protocol_steps (protocols w) (turn_id e w)
          @ local_steps e (selected_agent w) (sanitize content) (turn_id e w) chunks items ids)"
      "conversations w' =
         conversations (pushMessage (activeConversationId w)
           (local_reply e (ids ! 5) (selected_agent w) (sanitize content) (turn_id e w)
              chunks items)
           (pushMessage (activeConversationId w) (turn_message e content w) w))"
    using sendMessage_local [OF False, of content w] by blast
  from r(3) have "has_timeline w' (turn_id e w)
         (protocol_steps (protocols w) (turn_id e w) @ []
          @ local_steps e (selected_agent w) (sanitize content) (turn_id e w) chunks items ids)"
    by simp
  with r(1,2,4) show ?thesis
    by - (rule exI [of _ w'], rule exI [of _ "[]"], rule exI [of _ chunks],
          rule exI [of _ items], rule exI [of _ ids], intro conjI)
next
  case True
  then have failed: "remote_failed e content w"
    using assms by blast
  show ?thesis
  proof (cases "chatCompletions e (turn_request content w)")
    case (Inl err)
    obtain w' j1 j2 chunks items ids where r:
        "sendMessage e content w = Inr (turn_message e content w, w')"
        "\<exists>id1 id2. items = pack_items id1 id2 (sanitize content) chunks"
        "has_timeline w' (turn_id e w)
           (protocol_steps (protocols w) (turn_id e w)
            @ [remote_plan_step j1 (sanitize content), error_step j2 err]
            @ local_steps e (selected_agent w) (sanitize content) (turn_id e w) chunks items ids)"
        "conversations w' =
           conversations (pushMessage (activeConversationId w)
             (local_reply e (ids ! 5) (selected_agent w) (sanitize content) (turn_id e w)
                chunks items)
             (pushMessage (activeConversationId w) (turn_message e content w) w))"
      using sendMessage_remote_failure [OF True Inl] by blast
    from r show ?thesis
      by - (rule exI [of _ w'],
            rule exI [of _ "[remote_plan_step j1 (sanitize content), error_step j2 err]"],
            rule exI [of _ chunks], rule exI [of _ items], rule exI [of _ ids], intro conjI)
  next
    case (Inr res)
    then have throws: "handling_throws res"
      using failed by (simp add: remote_failed_def)
    obtain w' j1 bids site j2 chunks items ids where r:
        "sendMessage e content w = Inr (turn_message e content w, w')"
        "\<exists>id1 id2. items = pack_items id1 id2 (sanitize content) chunks"
        "has_timeline w' (turn_id e w)
           (protocol_steps (protocols w) (turn_id e w)
            @ remote_plan_step j1 (sanitize content)
              # map (\<lambda>(i, s). backend_step i s) (zip bids (applied_entries res))
            @ error_step j2 (type_error e site)
              # local_steps e (selected_agent w) (sanitize content) (turn_id e w)
                  chunks items ids)"
        "conversations w' =
           conversations (pushMessage (activeConversationId w)
             (local_reply e (ids ! 5) (selected_agent w) (sanitize content) (turn_id e w)
                chunks items)
             (pushMessage (activeConversationId w) (turn_message e content w) w))"
      using sendMessage_remote_throw [OF True Inr throws] by blast
    define pre where "pre = remote_plan_step j1 (sanitize content)
        # map (\<lambda>(i, s). backend_step i s) (zip bids (applied_entries res))
        @ [error_step j2 (type_error e site)]"
    have "has_timeline w' (turn_id e w)
           (protocol_steps (protocols w) (turn_id e w) @ pre
            @ local_steps e (selected_agent w) (sanitize content) (turn_id e w) chunks items ids)"
      using r(3) by (simp add: pre_def)
    with r(1,2,4) show ?thesis
      by - (rule exI [of _ w'], rule exI [of _ pre], rule exI [of _ chunks],
            rule exI [of _ items], rule exI [of _ ids], intro conjI)
  qed
qed

text \<open>
  Claim C10. On the local path, taken when no backend is configured or the remote path
  was attempted and failed, the model information recorded on the reply and on the
  generate step is the same record, computed from the packed items that the pack step
  recorded: its prompt count is
  the sum of the items' estimates (50 for an item without one), its completion count is
  160 and its total is their sum. The estimates of the packed items are 16 for the system
  item, at most 256 for the history item and at most 200 for each retrieval item.
\<close>

theorem local_path_token_accounting:
  assumes "\<not> isConfigured e \<or> remote_failed e content w"
  shows "\<exists>w' steps items chunks i j reply.
     sendMessage e content w = Inr (turn_message e content w, w') \<and>
     protocol_steps (protocols w') (turn_id e w) =
       protocol_steps (protocols w) (turn_id e w) @ steps \<and>
     step_type (last (butlast steps)) = ''pack'' \<and>
     step_contextWindow (last (butlast steps)) = Some items \<and>
     step_type (last steps) = ''generate'' \<and>
     step_model (last steps) = Some (FrontEnd (llmInfo e items)) \<and>
     conversations w' =
       conversations (pushMessage (activeConversationId w) reply
         (pushMessage (activeConversationId w) (turn_message e content w) w)) \<and>
     msg_llm reply = Some (llmInfo e items) \<and>
     llm_tokens (llmInfo e items) =
       Some \<lparr>tokens_prompt =
               Some (Num (of_nat (sum_list (map (\<lambda>it. case item_tokens it of None \<Rightarrow> 50
                                                      | Some t \<Rightarrow> t) items)))),
             tokens_completion = Some (Num 160),
             tokens_total =
               Some (Num (of_nat (sum_list (map (\<lambda>it. case item_tokens it of None \<Rightarrow> 50
                                                      | Some t \<Rightarrow> t) items) + 160)))\<rparr> \<and>
     items = pack_items i j (sanitize content) chunks \<and>
     map item_tokens items =
       Some 16 # Some (min (24 + length (sanitize content) div 3) 256)
         # map (\<lambda>ch. Some (min (60 + length (chunk_snippet ch) div 4) 200)) (take 3 chunks)"
proof -
  obtain w' pre chunks items ids where r:
      "sendMessage e content w = Inr (turn_message e content w, w')"
      "\<exists>id1 id2. items = pack_items id1 id2 (sanitize content) chunks"
      "has_timeline w' (turn_id e w)
         (protocol_steps (protocols w) (turn_id e w) @ pre
          @ local_steps e (selected_agent w) (sanitize content) (turn_id e w) chunks items ids)"
      "conversations w' =
         conversations (pushMessage (activeConversationId w)
           (local_reply e (ids ! 5) (selected_agent w) (sanitize content) (turn_id e w)
              chunks items)
           (pushMessage (activeConversationId w) (turn_message e content w) w))"
    using local_path_outcome [OF assms] by blast
  obtain i j where items: "items = pack_items i j (sanitize content) chunks"
    using r(2) by blast
  define ls where "ls = local_steps e (selected_agent w) (sanitize content) (turn_id e w)
      chunks items ids"
  define steps where "steps = pre @ ls"
  define reply where "reply = local_reply e (ids ! 5) (selected_agent w) (sanitize content)
      (turn_id e w) chunks items"
  have ne: "ls \<noteq> []" "butlast ls \<noteq> []"
    by (simp_all add: ls_def local_steps_def)
  have l: "last steps = last ls" "last (butlast steps) = last (butlast ls)"
    using ne by (simp_all add: steps_def butlast_append)
  have 1: "protocol_steps (protocols w') (turn_id e w) =
       protocol_steps (protocols w) (turn_id e w) @ steps"
    using has_timeline_steps [OF r(3)] by (simp add: steps_def ls_def)
  have 2: "step_type (last (butlast steps)) = ''pack''"
      "step_contextWindow (last (butlast steps)) = Some items"
      "step_type (last steps) = ''generate''"
      "step_model (last steps) = Some (FrontEnd (llmInfo e items))"
    unfolding l ls_def by (simp_all add: local_steps_last)
  have 3: "conversations w' =
       conversations (pushMessage (activeConversationId w) reply
         (pushMessage (activeConversationId w) (turn_message e content w) w))"
    using r(4) by (simp add: reply_def)
  have 4: "msg_llm reply = Some (llmInfo e items)"
    by (simp add: reply_def)
  have 5: "map item_tokens items =
       Some 16 # Some (min (24 + length (sanitize content) div 3) 256)
         # map (\<lambda>ch. Some (min (60 + length (chunk_snippet ch) div 4) 200)) (take 3 chunks)"
    unfolding items by (rule pack_items_tokens)
  from r(1) 1 2 3 4 llmInfo_tokens [of e items] items 5 show ?thesis
    by - (rule exI [of _ w'], rule exI [of _ steps], rule exI [of _ items],
          rule exI [of _ chunks], rule exI [of _ i], rule exI [of _ j],
          rule exI [of _ reply], intro conjI)
qed

theorem local_path_token_accounting_witness:
  "\<not> isConfigured offline_env \<and>
   (\<exists>w' steps items chunks i j reply.
     sendMessage offline_env ''hello'' (initial_world offline_env) =
       Inr (turn_message offline_env ''hello'' (initial_world offline_env), w') \<and>
     protocol_steps (protocols w') (turn_id offline_env (initial_world offline_env)) =
       protocol_steps (protocols (initial_world offline_env))
         (turn_id offline_env (initial_world offline_env)) @ steps \<and>
     step_type (last (butlast steps)) = ''pack'' \<and>
     step_contextWindow (last (butlast steps)) = Some items \<and>
     step_type (last steps) = ''generate'' \<and>
     step_model (last steps) = Some (FrontEnd (llmInfo offline_env items)) \<and>
     conversations w' =
       conversations (pushMessage (activeConversationId (initial_world offline_env)) reply
         (pushMessage (activeConversationId (initial_world offline_env))
            (turn_message offline_env ''hello'' (initial_world offline_env))
            (initial_world offline_env))) \<and>
     msg_llm reply = Some (llmInfo offline_env items) \<and>
     llm_tokens (llmInfo offline_env items) =
       Some \<lparr>tokens_prompt =
               Some (Num (of_nat (sum_list (map (\<lambda>it. case item_tokens it of None \<Rightarrow> 50
                                                      | Some t \<Rightarrow> t) items)))),
             tokens_completion = Some (Num 160),
             tokens_total =
               Some (Num (of_nat (sum_list (map (\<lambda>it. case item_tokens it of None \<Rightarrow> 50
                                                      | Some t \<Rightarrow> t) items) + 160)))\<rparr> \<and>
     items = pack_items i j (sanitize ''hello'') chunks \<and>
     map item_tokens items =
       Some 16 # Some (min (24 + length (sanitize ''hello'') div 3) 256)
         # map (\<lambda>ch. Some (min (60 + length (chunk_snippet ch) div 4) 200)) (take 3 chunks))"
proof -
  have h: "\<not> isConfigured offline_env \<or>
    remote_failed offline_env ''hello'' (initial_world offline_env)"
    by (simp add: isConfigured_def offline_env_def)
  have c: "\<not> isConfigured offline_env"
    by (simp add: isConfigured_def offline_env_def)
  show ?thesis
    by (intro conjI) (rule c, rule local_path_token_accounting [OF h])
qed

section \<open>Normalisation of the backend's numbers\<close>



lemma backend_reply_llm [simp]:
  "msg_llm (backend_reply e i agent t res) = normLlm e (res_llm res)"
  by (simp add: backend_reply_def)





end
